theory Spec2Isabelle
  imports Complex_Main
begin

section \<open>Python strings\<close>

text \<open>
  A Python \<open>str\<close> is modelled as a \<open>string\<close>: one \<open>char\<close> per code point, so the
  model covers the code points below 256. \<open>len\<close> is \<open>length\<close>.
\<close>

definition NL :: char where
  "NL = CHR 0x0A"

definition CR :: char where
  "CR = CHR 0x0D"

definition TAB :: char where
  "TAB = CHR 0x09"

definition SP :: char where
  "SP = CHR 0x20"

text \<open>\<open>str.isspace\<close> on the code points below 256: 9..13, 28..32, 133 and 160.\<close>

definition is_space :: "char \<Rightarrow> bool" where
  "is_space c =
     (let k = (of_char c :: nat)
      in (9 \<le> k \<and> k \<le> 13) \<or> (28 \<le> k \<and> k \<le> 32) \<or> k = 133 \<or> k = 160)"

text \<open>\<open>s.strip()\<close>: whitespace removed at both ends.\<close>

definition py_strip :: "string \<Rightarrow> string" where
  "py_strip s = rev (dropWhile is_space (rev (dropWhile is_space s)))"

text \<open>\<open>s.replace(a, b)\<close> for single characters \<open>a\<close> and \<open>b\<close>.\<close>

definition replace_char :: "char \<Rightarrow> char \<Rightarrow> string \<Rightarrow> string" where
  "replace_char a b s = map (\<lambda>c. if c = a then b else c) s"

text \<open>
  \<open>re.sub(r"C{k,}", rep, s)\<close> for a character class \<open>C\<close>: the leftmost match is greedy,
  so every maximal run of at least \<open>k\<close> characters of the class is replaced by \<open>rep\<close>,
  and shorter runs are kept.
\<close>

function sub_runs :: "(char \<Rightarrow> bool) \<Rightarrow> nat \<Rightarrow> string \<Rightarrow> string \<Rightarrow> string" where
  "sub_runs P k rep [] = []"
| "sub_runs P k rep (c # cs) =
     (if P c
      then (if k \<le> Suc (length (takeWhile P cs)) then rep else c # takeWhile P cs)
             @ sub_runs P k rep (dropWhile P cs)
      else c # sub_runs P k rep cs)"
  by pat_completeness auto
termination
  by (relation "measure (\<lambda>(P, k, rep, s). length s)")
     (auto simp: le_imp_less_Suc length_dropWhile_le)

text \<open>
  \<open>s[i:j]\<close> for integers \<open>i\<close> and \<open>j\<close>: a negative index counts from the end, and both
  are clamped to the string.
\<close>

definition slice_index :: "nat \<Rightarrow> int \<Rightarrow> nat" where
  "slice_index n i = (if i < 0 then nat (max 0 (i + int n)) else min (nat i) n)"

definition py_slice :: "string \<Rightarrow> int \<Rightarrow> int \<Rightarrow> string" where
  "py_slice s i j =
     (let a = slice_index (length s) i; b = slice_index (length s) j
      in take (b - a) (drop a s))"

text \<open>\<open>s.rfind(sub)\<close>: the highest index where \<open>sub\<close> starts in \<open>s\<close>, or \<open>-1\<close>.\<close>

definition py_rfind :: "string \<Rightarrow> string \<Rightarrow> int" where
  "py_rfind s sub =
     (case filter (\<lambda>i. take (length sub) (drop i s) = sub)
             (rev [0 ..< Suc (length s - length sub)]) of
        [] \<Rightarrow> - 1
      | i # _ \<Rightarrow> int i)"

text \<open>\<open>str(n)\<close> for a non-negative integer.\<close>

fun str_nat :: "nat \<Rightarrow> string" where
  "str_nat n =
     (if n < 10 then [char_of (48 + n)]
      else str_nat (n div 10) @ [char_of (48 + n mod 10)])"

declare str_nat.simps [simp del]

text \<open>\<open>sep.join(parts)\<close>.\<close>

fun py_join :: "string \<Rightarrow> string list \<Rightarrow> string" where
  "py_join sep [] = []"
| "py_join sep [x] = x"
| "py_join sep (x # y # ys) = x @ sep @ py_join sep (y # ys)"

section \<open>The chunker (app.py)\<close>

text \<open>\<open>_clean_text\<close>.\<close>

definition clean_text :: "string \<Rightarrow> string" where
  "clean_text s =
     py_strip
       (sub_runs (\<lambda>c. c = SP \<or> c = TAB) 2 [SP]
          (sub_runs (\<lambda>c. c = NL) 3 [NL, NL]
             (replace_char CR NL s)))"

text \<open>
  One pass through the body of the \<open>while\<close> loop of \<open>chunk_text\<close>, up to the
  \<open>chunks.append\<close>: the end position and the untrimmed chunk. The test
  \<open>cut > max_chars * 0.5\<close> compares an integer with a float that is exact for the
  integers a program can hold in a string length; it is \<open>2 * cut > max_chars\<close>.
\<close>

definition chunk_step :: "string \<Rightarrow> int \<Rightarrow> int \<Rightarrow> int \<times> string" where
  "chunk_step text max_chars start =
     (let n = int (length text);
          end0 = min n (start + max_chars);
          chunk0 = py_slice text start end0
      in if end0 < n
         then (let cut = py_rfind chunk0 [NL, NL]
               in if 2 * cut > max_chars
                  then (start + cut, py_slice text start (start + cut))
                  else (end0, chunk0))
         else (end0, chunk0))"

text \<open>
  The \<open>while\<close> loop of \<open>chunk_text\<close>. It need not terminate (take \<open>overlap = max_chars\<close>),
  so the result is an option: \<open>None\<close> is a loop that never returns.
\<close>

partial_function (option) chunk_loop ::
  "string \<Rightarrow> int \<Rightarrow> int \<Rightarrow> int \<Rightarrow> string list \<Rightarrow> string list option" where
  "chunk_loop text max_chars overlap start chunks =
     (if start < int (length text)
      then (case chunk_step text max_chars start of
              (end, chunk) \<Rightarrow>
                if end = int (length text)
                then Some (chunks @ [py_strip chunk])
                else chunk_loop text max_chars overlap (max 0 (end - overlap))
                       (chunks @ [py_strip chunk]))
      else Some chunks)"

declare chunk_loop.simps [code]

text \<open>
  The same loop, recording the positions \<open>(start, end)\<close> of every chunk it appends
  instead of the trimmed chunk: the chunk appended is \<open>text[start:end].strip()\<close>.
\<close>

partial_function (option) chunk_spans ::
  "string \<Rightarrow> int \<Rightarrow> int \<Rightarrow> int \<Rightarrow> (int \<times> int) list option" where
  "chunk_spans text max_chars overlap start =
     (if start < int (length text)
      then (case chunk_step text max_chars start of
              (end, chunk) \<Rightarrow>
                if end = int (length text)
                then Some [(start, end)]
                else Option.bind (chunk_spans text max_chars overlap (max 0 (end - overlap)))
                       (\<lambda>spans. Some ((start, end) # spans)))
      else Some [])"

declare chunk_spans.simps [code]

text \<open>
  Reassembling a text from the untrimmed slices at the recorded positions: of every
  slice, the characters before the end of its predecessor are dropped.
\<close>

fun unoverlap :: "string \<Rightarrow> int \<Rightarrow> (int \<times> int) list \<Rightarrow> string" where
  "unoverlap text prev_end [] = []"
| "unoverlap text prev_end ((start, end) # spans) =
     drop (nat (prev_end - start)) (py_slice text start end) @ unoverlap text end spans"

text \<open>
  The reassembly the round-trip property speaks of, in its own words: the chunks are
  concatenated in order, each chunk after the first without the \<open>overlap\<close> characters
  it repeats from its predecessor.
\<close>

fun rejoin :: "nat \<Rightarrow> string list \<Rightarrow> string" where
  "rejoin overlap [] = []"
| "rejoin overlap (c # cs) = c @ concat (map (drop overlap) cs)"

definition chunk_text :: "string \<Rightarrow> int \<Rightarrow> int \<Rightarrow> string list option" where
  "chunk_text text0 max_chars overlap =
     (let text = clean_text text0
      in if text = [] then Some []
         else map_option (filter (\<lambda>c. c \<noteq> [])) (chunk_loop text max_chars overlap 0 []))"


section \<open>Exceptions and the PDF library\<close>

text \<open>
  The exceptions the parser meets, all of them subclasses of \<open>Exception\<close>. A call that
  may raise returns \<open>error + 'a\<close>, with \<open>Inl\<close> for the exception raised.
\<close>

datatype error =
    ImportError string
  | FileNotFoundError string
  | ValueError string
  | ZeroDivisionError
  | OtherError string

text \<open>\<open>str(e)\<close> for an exception: its message.\<close>

fun error_message :: "error \<Rightarrow> string" where
  "error_message (ImportError m) = m"
| "error_message (FileNotFoundError m) = m"
| "error_message (ValueError m) = m"
| "error_message ZeroDivisionError = ''division by zero''"
| "error_message (OtherError m) = m"

text \<open>
  A page of an opened PyMuPDF document, as the parser reads it: \<open>page.get_text()\<close>,
  \<open>page.get_images()\<close> (the images by their reference numbers),
  \<open>page.get_text("dict")["blocks"]\<close> (each block with its \<open>type\<close>, if it has one, and
  its \<open>bbox\<close>) and \<open>page.rect\<close>. The reads may raise.
\<close>

type_synonym rect = "real \<times> real \<times> real \<times> real"

record fitz_page =
  get_text :: "error + string"
  get_images :: "error + nat list"
  get_blocks :: "error + (int option \<times> rect) list"
  rect_width :: real
  rect_height :: real

section \<open>The PDF page classifier (parsers.py)\<close>

text \<open>
  The sampling loop of \<open>_is_scanned_pdf\<close> over the pages \<open>doc[0], doc[1], ...\<close> it is
  given, counting in \<open>pages_without_text\<close>.
\<close>

fun count_pages_without_text :: "fitz_page list \<Rightarrow> nat \<Rightarrow> error + nat" where
  "count_pages_without_text [] pages_without_text = Inr pages_without_text"
| "count_pages_without_text (page # rest) pages_without_text =
     (case get_text page of
        Inl e \<Rightarrow> Inl e
      | Inr t \<Rightarrow>
          (let text = py_strip t
           in count_pages_without_text rest
                (if text = [] \<or> length text < 50
                 then pages_without_text + 1 else pages_without_text)))"

text \<open>
  The body of the \<open>try\<close> of \<open>_is_scanned_pdf\<close>, given what \<open>fitz.open(pdf_path)\<close> returned
  or raised. The quotient is a float in the source; numerator and denominator are
  integers between 0 and 5 there, no such quotient rounds across 0.7, and the
  comparison is the one of the exact quotient with 7/10. Division by zero raises.
\<close>

definition is_scanned_pdf_try :: "error + fitz_page list \<Rightarrow> error + bool" where
  "is_scanned_pdf_try opened =
     (case opened of
        Inl e \<Rightarrow> Inl e
      | Inr doc \<Rightarrow>
          (let total_pages = length doc
           in case count_pages_without_text (take (min 5 total_pages) doc) 0 of
                Inl e \<Rightarrow> Inl e
              | Inr pages_without_text \<Rightarrow>
                  if min 5 total_pages = 0 then Inl ZeroDivisionError
                  else Inr (real pages_without_text / real (min 5 total_pages) > 7 / 10)))"

text \<open>\<open>_is_scanned_pdf\<close>: any exception of the body is logged and answered with \<open>False\<close>.\<close>

definition is_scanned_pdf :: "error + fitz_page list \<Rightarrow> bool" where
  "is_scanned_pdf opened =
     (case is_scanned_pdf_try opened of Inl e \<Rightarrow> False | Inr b \<Rightarrow> b)"

text \<open>The dictionary \<open>_analyze_pdf\<close> returns when it does not fail.\<close>

record analysis_dict =
  pdf_type :: string
  total_pages :: nat
  scanned_pages :: "nat list"
  hybrid_pages :: "nat list"
  digital_pages :: "nat list"
  has_text :: bool

text \<open>
  The value under the key \<open>pdf_analysis\<close> of a parse result: \<open>None\<close>, the empty
  dictionary \<open>_analyze_pdf\<close> returns on an exception, the two-entry dictionary of the
  OCR engines (\<open>type\<close> is \<open>Scanned\<close>, with the page count), or a full analysis.
\<close>

datatype analysis =
    Analysis_None
  | Analysis_Empty
  | Analysis_Ocr nat
  | Analysis_Full analysis_dict

text \<open>
  The page loop of \<open>_analyze_pdf\<close>: \<open>page_num\<close> is the 0-based index of the first page
  of the list, and the three lists are appended to in place.
\<close>

fun classify_pages ::
  "fitz_page list \<Rightarrow> nat \<Rightarrow> nat list \<Rightarrow> nat list \<Rightarrow> nat list
     \<Rightarrow> error + (nat list \<times> nat list \<times> nat list)" where
  "classify_pages [] page_num scanned hybrid digital = Inr (scanned, hybrid, digital)"
| "classify_pages (page # rest) page_num scanned hybrid digital =
     (case get_text page of
        Inl e \<Rightarrow> Inl e
      | Inr t \<Rightarrow>
          (case get_images page of
             Inl e \<Rightarrow> Inl e
           | Inr images \<Rightarrow>
               (let has_text = length (py_strip t) > 50;
                    has_images = length images > 0
                in if \<not> has_text \<and> has_images
                   then classify_pages rest (page_num + 1)
                          (scanned @ [page_num + 1]) hybrid digital
                   else if has_text \<and> has_images
                   then classify_pages rest (page_num + 1)
                          scanned (hybrid @ [page_num + 1]) digital
                   else if has_text
                   then classify_pages rest (page_num + 1)
                          scanned hybrid (digital @ [page_num + 1])
                   else classify_pages rest (page_num + 1) scanned hybrid digital)))"

text \<open>\<open>_analyze_pdf\<close>, given what \<open>fitz.open(pdf_path)\<close> returned or raised.\<close>

definition analyze_pdf :: "error + fitz_page list \<Rightarrow> analysis" where
  "analyze_pdf opened =
     (case opened of
        Inl e \<Rightarrow> Analysis_Empty
      | Inr doc \<Rightarrow>
          (case classify_pages doc 0 [] [] [] of
             Inl e \<Rightarrow> Analysis_Empty
           | Inr (scanned, hybrid, digital) \<Rightarrow>
               Analysis_Full
                 \<lparr>pdf_type =
                    (if length scanned = length doc then ''Scanned''
                     else if length digital = length doc then ''Digital''
                     else ''Hybrid''),
                  total_pages = length doc,
                  scanned_pages = scanned,
                  hybrid_pages = hybrid,
                  digital_pages = digital,
                  has_text = (length digital > 0 \<or> length hybrid > 0)\<rparr>))"

section \<open>Parse results and the libraries behind the engines\<close>

text \<open>
  The dictionaries the engines return. A metadata dictionary is a list of keys with
  their values; \<open>None\<close> in an optional field is a key the engine does not set.
\<close>

datatype meta_value = Meta_Int int | Meta_Real real | Meta_Str string

record bbox =
  bbox_type :: string
  bbox_rect :: rect

record page =
  page_number :: nat
  page_content :: string
  page_bboxes :: "bbox list option"
  page_metadata :: "(string \<times> meta_value) list option"

record extracted_image =
  image_page :: nat
  image_index :: nat
  image_ext :: string
  image_width :: nat
  image_height :: nat

record document =
  tool_used :: string
  content :: string
  pages :: "page list"
  images :: "extracted_image list"
  metadata :: "(string \<times> meta_value) list"
  pdf_analysis :: "analysis option"
  errors :: "string list option"
  file_name :: "string option"
  file_type :: "string option"
  file_size :: "nat option"

text \<open>
  A pdfplumber page: \<open>extract_text()\<close> (a string or \<open>None\<close>), \<open>extract_tables()\<close> (tables
  of rows of cells, a cell a string or \<open>None\<close>), \<open>width\<close> and \<open>height\<close>.
\<close>

type_synonym table = "string option list list"

record plumber_page =
  extract_text :: "error + string option"
  extract_tables :: "error + table list"
  plumber_width :: real
  plumber_height :: real

text \<open>
  A page image for the OCR engines: \<open>pytesseract.image_to_string(image, lang)\<close>, the
  texts \<open>result[1]\<close> of \<open>reader.readtext(image)\<close>, \<open>width\<close> and \<open>height\<close>.
\<close>

record ocr_image =
  image_to_string :: "string \<Rightarrow> error + string"
  readtext :: "error + string list"
  ocr_width :: nat
  ocr_height :: nat

text \<open>
  A Docling conversion: a reported failure with its errors, or a document with
  \<open>export_to_markdown(page_break_placeholder=...)\<close>, \<open>num_pages()\<close>,
  \<open>export_to_markdown(page_no=i)\<close> and \<open>export_to_text()\<close>.
\<close>

record docling_document =
  export_full_markdown :: "error + string"
  num_pages :: "error + nat"
  export_page_markdown :: "nat \<Rightarrow> error + string"
  export_to_text :: "error + string"

datatype docling_result =
    Docling_Failure "string list"
  | Docling_Success docling_document

text \<open>A Word document: the paragraph texts and the tables, rows of cell texts.\<close>

record docx_document =
  paragraphs :: "string list"
  docx_tables :: "string list list list"

text \<open>
  What lies outside the parser, for every path: the download, the file system, and
  what each library returns or raises there. An \<open>ImportError\<close> of a missing library is
  one of the errors of its call.
  \<^item> \<open>path_ext\<close> is \<open>Path(p).suffix.lower().lstrip('.')\<close>, \<open>path_name\<close> is \<open>Path(p).name\<close>;
  \<^item> \<open>extract_images_pymupdf\<close> is the result of \<open>_extract_images_pymupdf\<close> on the opened
    document;
  \<^item> \<open>easyocr_images\<close> takes the OCR language and the path: the reader is created, then
    the pages are converted;
  \<^item> a slide of \<open>presentation\<close> is the list of its shapes, each with its text if it
    has one; a sheet of \<open>load_workbook\<close> is its name and its rows of cells, a cell
    \<open>None\<close> or the \<open>str\<close> of its value.
\<close>

record world =
  url_fetch :: "string \<Rightarrow> error + string"
  path_exists :: "string \<Rightarrow> bool"
  path_ext :: "string \<Rightarrow> string"
  path_name :: "string \<Rightarrow> string"
  getsize :: "string \<Rightarrow> nat"
  fitz_open :: "string \<Rightarrow> error + fitz_page list"
  extract_images_pymupdf :: "string \<Rightarrow> error + extracted_image list"
  to_markdown :: "string \<Rightarrow> error + string"
  pdfplumber_open :: "string \<Rightarrow> error + plumber_page list"
  tesseract_images :: "string \<Rightarrow> error + ocr_image list"
  easyocr_images :: "string \<Rightarrow> string \<Rightarrow> error + ocr_image list"
  docling_convert :: "string \<Rightarrow> error + docling_result"
  unstructured_partition :: "string \<Rightarrow> error + string list"
  docx_open :: "string \<Rightarrow> error + docx_document"
  presentation :: "string \<Rightarrow> error + string option list list"
  load_workbook :: "string \<Rightarrow> error + (string \<times> string option list list) list"
  read_text :: "string \<Rightarrow> error + string"

text \<open>The fields of a \<open>DocumentParser\<close>.\<close>

record parser_config =
  tool :: "string option"
  detect_scanned :: bool
  extract_images :: bool
  ocr_lang :: string

section \<open>The PDF engines (parsers.py)\<close>

text \<open>The line \<open>f"## Page {page_num + 1}\n\n{text}\n"\<close> an engine appends to \<open>content\<close>.\<close>

definition page_block :: "string \<Rightarrow> nat \<Rightarrow> string \<Rightarrow> string" where
  "page_block heading n text = heading @ str_nat n @ [NL, NL] @ text @ [NL]"

text \<open>The page loop of \<open>_parse_with_pymupdf\<close>.\<close>

fun pymupdf_loop ::
  "fitz_page list \<Rightarrow> nat \<Rightarrow> string list \<Rightarrow> page list \<Rightarrow> error + (string list \<times> page list)" where
  "pymupdf_loop [] page_num content_acc pages_acc = Inr (content_acc, pages_acc)"
| "pymupdf_loop (p # rest) page_num content_acc pages_acc =
     (case get_text p of
        Inl e \<Rightarrow> Inl e
      | Inr text \<Rightarrow>
          pymupdf_loop rest (page_num + 1)
            (content_acc @ [page_block ''## Page '' (page_num + 1) text])
            (pages_acc @
               [\<lparr>page_number = page_num + 1, page_content = text, page_bboxes = None,
                 page_metadata = Some [(''width'', Meta_Real (rect_width p)),
                                       (''height'', Meta_Real (rect_height p))]\<rparr>]))"

text \<open>\<open>_parse_with_pymupdf\<close>. Nothing is caught: every exception leaves the method.\<close>

definition parse_with_pymupdf :: "world \<Rightarrow> parser_config \<Rightarrow> string \<Rightarrow> error + document" where
  "parse_with_pymupdf w cfg pdf_path =
     (case fitz_open w pdf_path of
        Inl e \<Rightarrow> Inl e
      | Inr doc \<Rightarrow>
          (case pymupdf_loop doc 0 [] [] of
             Inl e \<Rightarrow> Inl e
           | Inr (content_acc, pages_acc) \<Rightarrow>
               (case (if extract_images cfg then extract_images_pymupdf w pdf_path else Inr []) of
                  Inl e \<Rightarrow> Inl e
                | Inr imgs \<Rightarrow>
                    Inr \<lparr>tool_used = ''PyMuPDF'',
                         content = py_join [NL] content_acc,
                         pages = pages_acc,
                         images = imgs,
                         metadata = [(''page_count'', Meta_Int (int (length pages_acc)))],
                         pdf_analysis =
                           Some (if detect_scanned cfg then analyze_pdf (fitz_open w pdf_path)
                                 else Analysis_None),
                         errors = None, file_name = None, file_type = None,
                         file_size = None\<rparr>)))"

text \<open>The block loop of \<open>_parse_with_pymupdf4llm\<close>: type 0 is text, type 1 an image.\<close>

fun collect_bboxes :: "(int option \<times> rect) list \<Rightarrow> bbox list \<Rightarrow> bbox list" where
  "collect_bboxes [] bboxes = bboxes"
| "collect_bboxes ((ty, r) # rest) bboxes =
     (if ty = Some 0 then collect_bboxes rest (bboxes @ [\<lparr>bbox_type = ''text'', bbox_rect = r\<rparr>])
      else if ty = Some 1
      then collect_bboxes rest (bboxes @ [\<lparr>bbox_type = ''image'', bbox_rect = r\<rparr>])
      else collect_bboxes rest bboxes)"

text \<open>The page loop of \<open>_parse_with_pymupdf4llm\<close>.\<close>

fun pymupdf4llm_loop :: "fitz_page list \<Rightarrow> nat \<Rightarrow> page list \<Rightarrow> error + page list" where
  "pymupdf4llm_loop [] page_num pages_acc = Inr pages_acc"
| "pymupdf4llm_loop (p # rest) page_num pages_acc =
     (case get_text p of
        Inl e \<Rightarrow> Inl e
      | Inr text \<Rightarrow>
          (case get_blocks p of
             Inl e \<Rightarrow> Inl e
           | Inr blocks \<Rightarrow>
               pymupdf4llm_loop rest (page_num + 1)
                 (pages_acc @
                    [\<lparr>page_number = page_num + 1, page_content = text,
                      page_bboxes = Some (collect_bboxes blocks []),
                      page_metadata = Some [(''width'', Meta_Real (rect_width p)),
                                            (''height'', Meta_Real (rect_height p))]\<rparr>])))"

text \<open>The body of the \<open>try\<close> of \<open>_parse_with_pymupdf4llm\<close>.\<close>

definition parse_with_pymupdf4llm_try ::
  "world \<Rightarrow> parser_config \<Rightarrow> string \<Rightarrow> error + document" where
  "parse_with_pymupdf4llm_try w cfg pdf_path =
     (case to_markdown w pdf_path of
        Inl e \<Rightarrow> Inl e
      | Inr md_text \<Rightarrow>
          (case fitz_open w pdf_path of
             Inl e \<Rightarrow> Inl e
           | Inr doc \<Rightarrow>
               (case pymupdf4llm_loop doc 0 [] of
                  Inl e \<Rightarrow> Inl e
                | Inr pages_acc \<Rightarrow>
                    (case (if extract_images cfg then extract_images_pymupdf w pdf_path
                           else Inr []) of
                       Inl e \<Rightarrow> Inl e
                     | Inr imgs \<Rightarrow>
                         Inr \<lparr>tool_used = ''PyMuPDF4LLM'',
                              content = md_text,
                              pages = pages_acc,
                              images = imgs,
                              metadata = [(''page_count'', Meta_Int (int (length pages_acc)))],
                              pdf_analysis =
                                Some (if detect_scanned cfg
                                      then analyze_pdf (fitz_open w pdf_path)
                                      else Analysis_None),
                              errors = None, file_name = None, file_type = None,
                              file_size = None\<rparr>))))"

text \<open>\<open>_parse_with_pymupdf4llm\<close>: an \<open>ImportError\<close> falls back to PyMuPDF.\<close>

definition parse_with_pymupdf4llm ::
  "world \<Rightarrow> parser_config \<Rightarrow> string \<Rightarrow> error + document" where
  "parse_with_pymupdf4llm w cfg pdf_path =
     (case parse_with_pymupdf4llm_try w cfg pdf_path of
        Inl (ImportError m) \<Rightarrow> parse_with_pymupdf w cfg pdf_path
      | Inl e \<Rightarrow> Inl e
      | Inr results \<Rightarrow> Inr results)"

text \<open>
  The cells of a pdfplumber table: \<open>str(cell)\<close> in the first row, and
  \<open>str(cell) if cell else ""\<close> in the other rows.
\<close>

definition header_cell :: "string option \<Rightarrow> string" where
  "header_cell cell = (case cell of None \<Rightarrow> ''None'' | Some s \<Rightarrow> s)"

definition data_cell :: "string option \<Rightarrow> string" where
  "data_cell cell = (case cell of None \<Rightarrow> [] | Some s \<Rightarrow> if s = [] then [] else s)"

text \<open>The loop over \<open>table[1:]\<close>, appending one line per row to \<open>table_md\<close>.\<close>

fun table_rows :: "string option list list \<Rightarrow> string \<Rightarrow> string" where
  "table_rows [] table_md = table_md"
| "table_rows (row # rest) table_md =
     table_rows rest
       (table_md @ ''| '' @ py_join '' | '' (map data_cell row) @ '' |'' @ [NL])"

text \<open>
  The loop over \<open>enumerate(tables)\<close> of \<open>_parse_with_pdfplumber\<close>, appending to
  \<open>table_md\<close>; \<open>table_idx\<close> is the index of the first table of the list.
\<close>

fun tables_markdown :: "table list \<Rightarrow> nat \<Rightarrow> string \<Rightarrow> string" where
  "tables_markdown [] table_idx table_md = table_md"
| "tables_markdown (table # rest) table_idx table_md =
     tables_markdown rest (table_idx + 1)
       (case table of
          [] \<Rightarrow> table_md
        | header # rows \<Rightarrow>
            (let md1 = table_md @ [NL] @ ''**Table '' @ str_nat (table_idx + 1) @ '':**''
                         @ [NL, NL];
                 md2 = (if header \<noteq> []
                        then table_rows rows
                               (md1 @ ''| '' @ py_join '' | '' (map header_cell header) @ '' |''
                                  @ [NL]
                                  @ ''|'' @ py_join ''|'' (replicate (length header) ''---'')
                                  @ ''|'' @ [NL])
                        else md1)
             in md2 @ [NL]))"

text \<open>The page loop of \<open>_parse_with_pdfplumber\<close>.\<close>

fun pdfplumber_loop ::
  "plumber_page list \<Rightarrow> nat \<Rightarrow> string list \<Rightarrow> page list
     \<Rightarrow> error + (string list \<times> page list)" where
  "pdfplumber_loop [] page_num content_acc pages_acc = Inr (content_acc, pages_acc)"
| "pdfplumber_loop (p # rest) page_num content_acc pages_acc =
     (case extract_text p of
        Inl e \<Rightarrow> Inl e
      | Inr extracted \<Rightarrow>
          (case extract_tables p of
             Inl e \<Rightarrow> Inl e
           | Inr tables \<Rightarrow>
               (let text = (case extracted of None \<Rightarrow> [] | Some s \<Rightarrow> s);
                    table_md = tables_markdown tables 0 [];
                    page_content' = text @ [NL] @ table_md
                in pdfplumber_loop rest (page_num + 1)
                     (content_acc @ [page_block ''## Page '' (page_num + 1) page_content'])
                     (pages_acc @
                        [\<lparr>page_number = page_num + 1, page_content = page_content',
                          page_bboxes = None,
                          page_metadata =
                            Some [(''width'', Meta_Real (plumber_width p)),
                                  (''height'', Meta_Real (plumber_height p)),
                                  (''tables_count'', Meta_Int (int (length tables)))]\<rparr>]))))"

text \<open>\<open>_parse_with_pdfplumber\<close>: an \<open>ImportError\<close> falls back to PyMuPDF.\<close>

definition parse_with_pdfplumber ::
  "world \<Rightarrow> parser_config \<Rightarrow> string \<Rightarrow> error + document" where
  "parse_with_pdfplumber w cfg pdf_path =
     (case (case pdfplumber_open w pdf_path of
              Inl e \<Rightarrow> Inl e
            | Inr pdf_pages \<Rightarrow>
                (case pdfplumber_loop pdf_pages 0 [] [] of
                   Inl e \<Rightarrow> Inl e
                 | Inr (content_acc, pages_acc) \<Rightarrow>
                     Inr \<lparr>tool_used = ''pdfplumber'',
                          content = py_join [NL] content_acc,
                          pages = pages_acc,
                          images = [],
                          metadata = [(''page_count'', Meta_Int (int (length pages_acc)))],
                          pdf_analysis =
                            Some (if detect_scanned cfg then analyze_pdf (fitz_open w pdf_path)
                                  else Analysis_None),
                          errors = None, file_name = None, file_type = None,
                          file_size = None\<rparr>)) of
        Inl (ImportError m) \<Rightarrow> parse_with_pymupdf w cfg pdf_path
      | Inl e \<Rightarrow> Inl e
      | Inr results \<Rightarrow> Inr results)"

text \<open>The page loop of \<open>_parse_with_tesseract\<close>.\<close>

fun tesseract_loop ::
  "ocr_image list \<Rightarrow> string \<Rightarrow> nat \<Rightarrow> string list \<Rightarrow> page list
     \<Rightarrow> error + (string list \<times> page list)" where
  "tesseract_loop [] lang page_num content_acc pages_acc = Inr (content_acc, pages_acc)"
| "tesseract_loop (img # rest) lang page_num content_acc pages_acc =
     (case image_to_string img lang of
        Inl e \<Rightarrow> Inl e
      | Inr text \<Rightarrow>
          tesseract_loop rest lang (page_num + 1)
            (content_acc @ [page_block ''## Page '' (page_num + 1) text])
            (pages_acc @
               [\<lparr>page_number = page_num + 1, page_content = text, page_bboxes = None,
                 page_metadata = Some [(''ocr_confidence'', Meta_Str ''N/A''),
                                       (''width'', Meta_Int (int (ocr_width img))),
                                       (''height'', Meta_Int (int (ocr_height img)))]\<rparr>]))"

text \<open>\<open>_parse_with_tesseract\<close>: an \<open>ImportError\<close> is raised again with a longer message.\<close>

definition parse_with_tesseract ::
  "world \<Rightarrow> parser_config \<Rightarrow> string \<Rightarrow> error + document" where
  "parse_with_tesseract w cfg pdf_path =
     (case (case tesseract_images w pdf_path of
              Inl e \<Rightarrow> Inl e
            | Inr page_images \<Rightarrow>
                (case tesseract_loop page_images (ocr_lang cfg) 0 [] [] of
                   Inl e \<Rightarrow> Inl e
                 | Inr (content_acc, pages_acc) \<Rightarrow>
                     Inr \<lparr>tool_used = ''Tesseract OCR'',
                          content = py_join [NL] content_acc,
                          pages = pages_acc,
                          images = [],
                          metadata = [(''page_count'', Meta_Int (int (length pages_acc)))],
                          pdf_analysis = Some (Analysis_Ocr (length pages_acc)),
                          errors = None, file_name = None, file_type = None,
                          file_size = None\<rparr>)) of
        Inl (ImportError m) \<Rightarrow>
          Inl (ImportError (''Tesseract OCR dependencies not available: '' @ m))
      | Inl e \<Rightarrow> Inl e
      | Inr results \<Rightarrow> Inr results)"

text \<open>The page loop of \<open>_parse_with_easyocr\<close>.\<close>

fun easyocr_loop ::
  "ocr_image list \<Rightarrow> nat \<Rightarrow> string list \<Rightarrow> page list
     \<Rightarrow> error + (string list \<times> page list)" where
  "easyocr_loop [] page_num content_acc pages_acc = Inr (content_acc, pages_acc)"
| "easyocr_loop (img # rest) page_num content_acc pages_acc =
     (case readtext img of
        Inl e \<Rightarrow> Inl e
      | Inr detections \<Rightarrow>
          (let text = py_join [NL] detections
           in easyocr_loop rest (page_num + 1)
                (content_acc @ [page_block ''## Page '' (page_num + 1) text])
                (pages_acc @
                   [\<lparr>page_number = page_num + 1, page_content = text, page_bboxes = None,
                     page_metadata =
                       Some [(''detections'', Meta_Int (int (length detections))),
                             (''width'', Meta_Int (int (ocr_width img))),
                             (''height'', Meta_Int (int (ocr_height img)))]\<rparr>])))"

text \<open>\<open>_parse_with_easyocr\<close>.\<close>

definition parse_with_easyocr ::
  "world \<Rightarrow> parser_config \<Rightarrow> string \<Rightarrow> error + document" where
  "parse_with_easyocr w cfg pdf_path =
     (case (case easyocr_images w (ocr_lang cfg) pdf_path of
              Inl e \<Rightarrow> Inl e
            | Inr page_images \<Rightarrow>
                (case easyocr_loop page_images 0 [] [] of
                   Inl e \<Rightarrow> Inl e
                 | Inr (content_acc, pages_acc) \<Rightarrow>
                     Inr \<lparr>tool_used = ''EasyOCR'',
                          content = py_join [NL] content_acc,
                          pages = pages_acc,
                          images = [],
                          metadata = [(''page_count'', Meta_Int (int (length pages_acc)))],
                          pdf_analysis = Some (Analysis_Ocr (length pages_acc)),
                          errors = None, file_name = None, file_type = None,
                          file_size = None\<rparr>)) of
        Inl (ImportError m) \<Rightarrow>
          Inl (ImportError (''EasyOCR dependencies not available: '' @ m))
      | Inl e \<Rightarrow> Inl e
      | Inr results \<Rightarrow> Inr results)"

text \<open>
  The page loop of \<open>_parse_with_docling\<close>, over \<open>range(page_count)\<close>: \<open>i\<close> is the next
  index and \<open>todo\<close> the number of indices left.
\<close>

fun docling_loop ::
  "docling_document \<Rightarrow> nat \<Rightarrow> nat \<Rightarrow> page list \<Rightarrow> error + page list" where
  "docling_loop doc i 0 pages_acc = Inr pages_acc"
| "docling_loop doc i (Suc todo) pages_acc =
     (case export_page_markdown doc i of
        Inl e \<Rightarrow> Inl e
      | Inr page_md \<Rightarrow>
          docling_loop doc (i + 1) todo
            (pages_acc @
               [\<lparr>page_number = i + 1, page_content = page_md, page_bboxes = None,
                 page_metadata = Some []\<rparr>]))"

text \<open>The body of the \<open>try\<close> of \<open>_parse_with_docling\<close>.\<close>

definition parse_with_docling_try :: "world \<Rightarrow> string \<Rightarrow> error + document" where
  "parse_with_docling_try w pdf_path =
     (case docling_convert w pdf_path of
        Inl e \<Rightarrow> Inl e
      | Inr (Docling_Failure errs) \<Rightarrow>
          Inr \<lparr>tool_used = ''Docling'', content = [], pages = [], images = [],
               metadata = [], pdf_analysis = Some Analysis_None, errors = Some errs,
               file_name = None, file_type = None, file_size = None\<rparr>
      | Inr (Docling_Success doc) \<Rightarrow>
          (case export_full_markdown doc of
             Inl e \<Rightarrow> Inl e
           | Inr full_md \<Rightarrow>
               (case num_pages doc of
                  Inl e \<Rightarrow> Inl e
                | Inr page_count \<Rightarrow>
                    (case docling_loop doc 0 page_count [] of
                       Inl e \<Rightarrow> Inl e
                     | Inr pages_acc \<Rightarrow>
                         (case (if py_strip full_md = [] then export_to_text doc
                                else Inr full_md) of
                            Inl e \<Rightarrow> Inl e
                          | Inr full_md' \<Rightarrow>
                              Inr \<lparr>tool_used = ''Docling'',
                                   content = full_md',
                                   pages = pages_acc,
                                   images = [],
                                   metadata = [(''page_count'', Meta_Int (int page_count))],
                                   pdf_analysis = Some Analysis_None,
                                   errors = None, file_name = None, file_type = None,
                                   file_size = None\<rparr>)))))"

text \<open>
  \<open>_parse_with_docling\<close>: an \<open>ImportError\<close> and any other exception are both answered
  with \<open>_parse_with_pymupdf\<close>, whose own exceptions are not caught.
\<close>

definition parse_with_docling ::
  "world \<Rightarrow> parser_config \<Rightarrow> string \<Rightarrow> error + document" where
  "parse_with_docling w cfg pdf_path =
     (case parse_with_docling_try w pdf_path of
        Inl (ImportError m) \<Rightarrow> parse_with_pymupdf w cfg pdf_path
      | Inl e \<Rightarrow> parse_with_pymupdf w cfg pdf_path
      | Inr results \<Rightarrow> Inr results)"

text \<open>\<open>_parse_with_unstructured\<close>; the elements are given by their \<open>str\<close>.\<close>

definition parse_with_unstructured ::
  "world \<Rightarrow> parser_config \<Rightarrow> string \<Rightarrow> error + document" where
  "parse_with_unstructured w cfg pdf_path =
     (case unstructured_partition w pdf_path of
        Inl (ImportError m) \<Rightarrow> parse_with_pymupdf w cfg pdf_path
      | Inl e \<Rightarrow> Inl e
      | Inr elements \<Rightarrow>
          Inr \<lparr>tool_used = ''Unstructured'',
               content = py_join [NL, NL] elements,
               pages = [],
               images = [],
               metadata = [(''elements_count'', Meta_Int (int (length elements)))],
               pdf_analysis = Some Analysis_None,
               errors = None, file_name = None, file_type = None, file_size = None\<rparr>)"

section \<open>The office and text engines (parsers.py)\<close>

text \<open>The table loop of \<open>_parse_word\<close>: a title, then one line per row.\<close>

fun word_tables :: "string list list list \<Rightarrow> string list \<Rightarrow> string list" where
  "word_tables [] content_acc = content_acc"
| "word_tables (table # rest) content_acc =
     word_tables rest
       (content_acc @ [[NL] @ ''**Table:**'' @ [NL]] @ map (py_join '' | '') table)"

text \<open>\<open>_parse_word\<close>.\<close>

definition parse_word :: "world \<Rightarrow> parser_config \<Rightarrow> string \<Rightarrow> error + document" where
  "parse_word w cfg doc_path =
     (case docx_open w doc_path of
        Inl (ImportError m) \<Rightarrow> Inl (ImportError ''python-docx not available'')
      | Inl e \<Rightarrow> Inl e
      | Inr doc \<Rightarrow>
          (let content_acc =
                 word_tables (docx_tables doc)
                   (filter (\<lambda>para. py_strip para \<noteq> []) (paragraphs doc));
               full_content = py_join [NL, NL] content_acc
           in Inr \<lparr>tool_used = ''python-docx'',
                   content = full_content,
                   pages = [\<lparr>page_number = 1, page_content = full_content,
                             page_bboxes = None, page_metadata = None\<rparr>],
                   images = [],
                   metadata = [(''paragraphs'', Meta_Int (int (length (paragraphs doc)))),
                               (''tables'', Meta_Int (int (length (docx_tables doc))))],
                   pdf_analysis = None,
                   errors = None, file_name = None, file_type = None, file_size = None\<rparr>))"

text \<open>
  The slide loop of \<open>_parse_powerpoint\<close>; a shape contributes its text when it has a
  \<open>text\<close> attribute.
\<close>

fun powerpoint_loop ::
  "string option list list \<Rightarrow> nat \<Rightarrow> string list \<Rightarrow> page list \<Rightarrow> string list \<times> page list" where
  "powerpoint_loop [] slide_num content_acc pages_acc = (content_acc, pages_acc)"
| "powerpoint_loop (slide # rest) slide_num content_acc pages_acc =
     (let slide_text = concat (map (\<lambda>shape. case shape of None \<Rightarrow> [] | Some t \<Rightarrow> [t]) slide);
          slide_content = py_join [NL] slide_text
      in powerpoint_loop rest (slide_num + 1)
           (content_acc @ [page_block ''## Slide '' (slide_num + 1) slide_content])
           (pages_acc @
              [\<lparr>page_number = slide_num + 1, page_content = slide_content,
                page_bboxes = None, page_metadata = None\<rparr>]))"

text \<open>\<open>_parse_powerpoint\<close>.\<close>

definition parse_powerpoint :: "world \<Rightarrow> parser_config \<Rightarrow> string \<Rightarrow> error + document" where
  "parse_powerpoint w cfg ppt_path =
     (case presentation w ppt_path of
        Inl (ImportError m) \<Rightarrow> Inl (ImportError ''python-pptx not available'')
      | Inl e \<Rightarrow> Inl e
      | Inr slides \<Rightarrow>
          (case powerpoint_loop slides 0 [] [] of
             (content_acc, pages_acc) \<Rightarrow>
               Inr \<lparr>tool_used = ''python-pptx'',
                    content = py_join [NL] content_acc,
                    pages = pages_acc,
                    images = [],
                    metadata = [(''slides'', Meta_Int (int (length slides)))],
                    pdf_analysis = None,
                    errors = None, file_name = None, file_type = None,
                    file_size = None\<rparr>))"

text \<open>The sheet loop of \<open>_parse_excel\<close>.\<close>

fun excel_loop ::
  "(string \<times> string option list list) list \<Rightarrow> string list \<Rightarrow> string list" where
  "excel_loop [] content_acc = content_acc"
| "excel_loop ((sheet_name, rows) # rest) content_acc =
     excel_loop rest
       (content_acc @ [''## Sheet: '' @ sheet_name @ [NL]]
          @ map (\<lambda>row. ''| ''
                   @ py_join '' | '' (map (\<lambda>cell. case cell of None \<Rightarrow> [] | Some s \<Rightarrow> s) row)
                   @ '' |'') rows
          @ [[NL]])"

text \<open>\<open>_parse_excel\<close>.\<close>

definition parse_excel :: "world \<Rightarrow> parser_config \<Rightarrow> string \<Rightarrow> error + document" where
  "parse_excel w cfg excel_path =
     (case load_workbook w excel_path of
        Inl (ImportError m) \<Rightarrow> Inl (ImportError ''openpyxl not available'')
      | Inl e \<Rightarrow> Inl e
      | Inr sheets \<Rightarrow>
          Inr \<lparr>tool_used = ''openpyxl'',
               content = py_join [NL] (excel_loop sheets []),
               pages = [],
               images = [],
               metadata = [(''sheets'', Meta_Int (int (length sheets)))],
               pdf_analysis = None,
               errors = None, file_name = None, file_type = None, file_size = None\<rparr>)"

text \<open>\<open>_parse_text\<close>; \<open>len(content.split('\n'))\<close> is one more than the number of newlines.\<close>

definition parse_text :: "world \<Rightarrow> parser_config \<Rightarrow> string \<Rightarrow> error + document" where
  "parse_text w cfg text_path =
     (case read_text w text_path of
        Inl e \<Rightarrow> Inl e
      | Inr file_content \<Rightarrow>
          Inr \<lparr>tool_used = ''Built-in'',
               content = file_content,
               pages = [\<lparr>page_number = 1, page_content = file_content,
                         page_bboxes = None, page_metadata = None\<rparr>],
               images = [],
               metadata =
                 [(''lines'', Meta_Int (int (length (filter (\<lambda>c. c = NL) file_content)) + 1))],
               pdf_analysis = None,
               errors = None, file_name = None, file_type = None, file_size = None\<rparr>)"

section \<open>Parser selection and \<open>parse\<close> (parsers.py)\<close>

text \<open>The parser methods of \<open>DocumentParser\<close>.\<close>

datatype parser_method =
    Parse_with_pymupdf
  | Parse_with_pymupdf4llm
  | Parse_with_docling
  | Parse_with_unstructured
  | Parse_with_pdfplumber
  | Parse_word
  | Parse_powerpoint
  | Parse_excel
  | Parse_with_tesseract
  | Parse_with_easyocr
  | Parse_text

text \<open>Calling a parser method on a path.\<close>

fun call_parser ::
  "parser_method \<Rightarrow> world \<Rightarrow> parser_config \<Rightarrow> string \<Rightarrow> error + document" where
  "call_parser Parse_with_pymupdf = parse_with_pymupdf"
| "call_parser Parse_with_pymupdf4llm = parse_with_pymupdf4llm"
| "call_parser Parse_with_docling = parse_with_docling"
| "call_parser Parse_with_unstructured = parse_with_unstructured"
| "call_parser Parse_with_pdfplumber = parse_with_pdfplumber"
| "call_parser Parse_word = parse_word"
| "call_parser Parse_powerpoint = parse_powerpoint"
| "call_parser Parse_excel = parse_excel"
| "call_parser Parse_with_tesseract = parse_with_tesseract"
| "call_parser Parse_with_easyocr = parse_with_easyocr"
| "call_parser Parse_text = parse_text"

text \<open>\<open>SUPPORTED_EXTENSIONS\<close>, in the order of the dictionary.\<close>

definition SUPPORTED_EXTENSIONS :: "(string \<times> string list) list" where
  "SUPPORTED_EXTENSIONS =
     [(''pdf'', [''pdf'']),
      (''word'', [''docx'', ''doc'']),
      (''powerpoint'', [''pptx'', ''ppt'']),
      (''excel'', [''xlsx'', ''xls'', ''csv'']),
      (''text'', [''txt'', ''md'', ''html'', ''htm''])]"

text \<open>\<open>_get_document_type\<close>: the first type that lists the extension.\<close>

fun find_document_type :: "(string \<times> string list) list \<Rightarrow> string \<Rightarrow> string" where
  "find_document_type [] extension = ''unknown''"
| "find_document_type ((doc_type, exts) # rest) extension =
     (if extension \<in> set exts then doc_type else find_document_type rest extension)"

definition get_document_type :: "string \<Rightarrow> string" where
  "get_document_type extension = find_document_type SUPPORTED_EXTENSIONS extension"

text \<open>\<open>_auto_select_parser\<close>.\<close>

definition auto_select_parser ::
  "world \<Rightarrow> parser_config \<Rightarrow> string \<Rightarrow> string \<Rightarrow> error + parser_method" where
  "auto_select_parser w cfg doc_type path =
     (if doc_type = ''pdf''
      then (if detect_scanned cfg \<and> is_scanned_pdf (fitz_open w path)
            then Inr Parse_with_tesseract
            else Inr Parse_with_pymupdf4llm)
      else if doc_type = ''word'' then Inr Parse_word
      else if doc_type = ''powerpoint'' then Inr Parse_powerpoint
      else if doc_type = ''excel'' then Inr Parse_excel
      else if doc_type = ''text'' then Inr Parse_text
      else Inl (ValueError (''Unsupported document type: '' @ doc_type)))"

text \<open>The \<open>method_map\<close> of \<open>_get_parser_method\<close>.\<close>

definition method_map :: "(string \<times> parser_method) list" where
  "method_map =
     [(''pymupdf'', Parse_with_pymupdf),
      (''pymupdf4llm'', Parse_with_pymupdf4llm),
      (''docling'', Parse_with_docling),
      (''unstructured'', Parse_with_unstructured),
      (''pdfplumber'', Parse_with_pdfplumber),
      (''python-docx'', Parse_word),
      (''python-pptx'', Parse_powerpoint),
      (''openpyxl'', Parse_excel),
      (''tesseract_ocr'', Parse_with_tesseract),
      (''easyocr'', Parse_with_easyocr)]"

text \<open>\<open>_get_parser_method\<close>.\<close>

definition get_parser_method :: "string \<Rightarrow> error + parser_method" where
  "get_parser_method tool_name =
     (case map_of method_map tool_name of
        None \<Rightarrow> Inl (ValueError (''Unknown tool: '' @ tool_name))
      | Some m \<Rightarrow> Inr m)"

text \<open>\<open>_download_from_url\<close>: any exception is raised again as a plain \<open>Exception\<close>.\<close>

definition download_from_url :: "world \<Rightarrow> string \<Rightarrow> error + string" where
  "download_from_url w url =
     (case url_fetch w url of
        Inl e \<Rightarrow> Inl (OtherError (''Failed to download from URL: '' @ error_message e))
      | Inr tmp \<Rightarrow> Inr tmp)"

text \<open>\<open>s.startswith(prefix)\<close>.\<close>

definition startswith :: "string \<Rightarrow> string \<Rightarrow> bool" where
  "startswith s pre = (take (length pre) s = pre)"

text \<open>
  \<open>parse\<close>. The test \<open>if self.tool\<close> holds for a tool that is neither \<open>None\<close> nor the
  empty string.
\<close>

definition parse :: "world \<Rightarrow> parser_config \<Rightarrow> string \<Rightarrow> error + document" where
  "parse w cfg document_path =
     (case (if startswith document_path ''http://'' \<or> startswith document_path ''https://''
            then download_from_url w document_path
            else Inr document_path) of
        Inl e \<Rightarrow> Inl e
      | Inr path \<Rightarrow>
          if \<not> path_exists w path
          then Inl (FileNotFoundError (''Document not found: '' @ path))
          else
            (let doc_type = get_document_type (path_ext w path)
             in case (case tool cfg of
                        None \<Rightarrow> auto_select_parser w cfg doc_type path
                      | Some t \<Rightarrow>
                          if t \<noteq> [] then get_parser_method t
                          else auto_select_parser w cfg doc_type path) of
                  Inl e \<Rightarrow> Inl e
                | Inr selected \<Rightarrow>
                    (case call_parser selected w cfg path of
                       Inl e \<Rightarrow> Inl e
                     | Inr results \<Rightarrow>
                         Inr (results
                               \<lparr>file_name := Some (path_name w path),
                                file_type := Some doc_type,
                                file_size := Some (getsize w path)\<rparr>))))"

text \<open>
  The content the normalizer's contract describes, in its own words: the page
  contents in order, each under a \<open>## Page N\<close> heading for its page number, with a
  single blank line after the heading and between pages.
\<close>

definition headed_pages :: "page list \<Rightarrow> string" where
  "headed_pages ps =
     py_join [NL, NL]
       (map (\<lambda>p. ''## Page '' @ str_nat (page_number p) @ [NL, NL] @ page_content p) ps)"

text \<open>
  What the page engines build: \<open>'\n'.join\<close> of one block per page, the heading with
  the page number, a blank line, the page content and a newline.
\<close>

definition joined_blocks :: "string \<Rightarrow> page list \<Rightarrow> string" where
  "joined_blocks heading ps =
     py_join [NL] (map (\<lambda>p. page_block heading (page_number p) (page_content p)) ps)"

section \<open>The RAG export (app.py)\<close>

text \<open>
  \<open>_stable_id\<close>. The digest \<open>hashlib.sha1(s.encode("utf-8")).hexdigest()\<close> belongs to the
  standard library and is a parameter, \<open>sha1_hexdigest\<close>.
\<close>

definition stable_id :: "(string \<Rightarrow> string) \<Rightarrow> string list \<Rightarrow> string" where
  "stable_id sha1_hexdigest parts = take 16 (sha1_hexdigest (py_join ''|'' parts))"

text \<open>
  The \<open>results\<close> dictionary as \<open>build_rag_json\<close> reads it, with \<open>get\<close>: \<open>None\<close> is a
  missing key or the value \<open>None\<close>. A page is read the same way.
\<close>

record results_page =
  get_page_number :: "nat option"
  get_page_content :: "string option"

record parse_results =
  get_file_name :: "string option"
  get_tool_used :: "string option"
  get_file_type :: "string option"
  get_file_size :: "nat option"
  get_pdf_analysis :: "analysis option"
  get_pages :: "results_page list option"
  get_content :: "string option"

text \<open>
  A chunk of the export. In the metadata, \<open>meta_page\<close> is \<open>None\<close> when there is no
  \<open>page\<close> key (a chunk of the whole content) and the page number read from the page
  otherwise; \<open>chunk_body\<close> is the entry \<open>text\<close>.
\<close>

record chunk_metadata =
  meta_file_name :: string
  meta_file_type :: string
  meta_tool_used :: string
  meta_page :: "nat option option"
  meta_chunk_index :: nat

record rag_chunk =
  chunk_id :: string
  chunk_body :: string
  chunk_meta :: chunk_metadata

record rag_document =
  doc_file_name :: string
  doc_file_type :: string
  doc_tool_used :: string
  doc_file_size :: "nat option"
  doc_pdf_analysis :: "analysis option"

record rag_json =
  schema :: string
  created_at :: string
  rag_doc :: rag_document
  chunks :: "rag_chunk list"

text \<open>\<open>str(page_num)\<close> for a page number that may be \<open>None\<close>.\<close>

definition str_page :: "nat option \<Rightarrow> string" where
  "str_page page_num = (case page_num of None \<Rightarrow> ''None'' | Some n \<Rightarrow> str_nat n)"

text \<open>
  The loop over \<open>enumerate(page_chunks)\<close> of \<open>build_rag_json\<close>, appending to the
  chunks of the export; \<open>i\<close> is the index of the first chunk of the list.
\<close>

fun page_chunk_loop ::
  "(string \<Rightarrow> string) \<Rightarrow> string \<Rightarrow> string \<Rightarrow> string \<Rightarrow> nat option \<Rightarrow> string list \<Rightarrow> nat
     \<Rightarrow> rag_chunk list \<Rightarrow> rag_chunk list" where
  "page_chunk_loop sha1_hexdigest fname ftype tused page_num [] i out = out"
| "page_chunk_loop sha1_hexdigest fname ftype tused page_num (ch # rest) i out =
     page_chunk_loop sha1_hexdigest fname ftype tused page_num rest (i + 1)
       (out @
          [\<lparr>chunk_id = stable_id sha1_hexdigest [fname, str_page page_num, str_nat i, take 40 ch],
            chunk_body = ch,
            chunk_meta = \<lparr>meta_file_name = fname, meta_file_type = ftype,
                           meta_tool_used = tused, meta_page = Some page_num,
                           meta_chunk_index = i\<rparr>\<rparr>])"

text \<open>The loop over the chunks of the whole content, in the \<open>else\<close> branch.\<close>

fun doc_chunk_loop ::
  "(string \<Rightarrow> string) \<Rightarrow> string \<Rightarrow> string \<Rightarrow> string \<Rightarrow> string list \<Rightarrow> nat
     \<Rightarrow> rag_chunk list \<Rightarrow> rag_chunk list" where
  "doc_chunk_loop sha1_hexdigest fname ftype tused [] i out = out"
| "doc_chunk_loop sha1_hexdigest fname ftype tused (ch # rest) i out =
     doc_chunk_loop sha1_hexdigest fname ftype tused rest (i + 1)
       (out @
          [\<lparr>chunk_id = stable_id sha1_hexdigest [fname, ''doc'', str_nat i, take 40 ch],
            chunk_body = ch,
            chunk_meta = \<lparr>meta_file_name = fname, meta_file_type = ftype,
                           meta_tool_used = tused, meta_page = None,
                           meta_chunk_index = i\<rparr>\<rparr>])"

text \<open>
  The loop over the pages. \<open>chunk_text\<close> may not return, and then neither does the
  loop: the result is \<open>None\<close>.
\<close>

fun pages_loop ::
  "(string \<Rightarrow> string) \<Rightarrow> string \<Rightarrow> string \<Rightarrow> string \<Rightarrow> int \<Rightarrow> int \<Rightarrow> results_page list
     \<Rightarrow> rag_chunk list \<Rightarrow> rag_chunk list option" where
  "pages_loop sha1_hexdigest fname ftype tused chunk_size overlap [] out = Some out"
| "pages_loop sha1_hexdigest fname ftype tused chunk_size overlap (p # rest) out =
     (let page_num = get_page_number p;
          page_text = clean_text (case get_page_content p of None \<Rightarrow> [] | Some s \<Rightarrow> s)
      in if page_text = []
         then pages_loop sha1_hexdigest fname ftype tused chunk_size overlap rest out
         else (case chunk_text page_text chunk_size overlap of
                 None \<Rightarrow> None
               | Some page_chunks \<Rightarrow>
                   pages_loop sha1_hexdigest fname ftype tused chunk_size overlap rest
                     (page_chunk_loop sha1_hexdigest fname ftype tused page_num page_chunks 0
                        out)))"

text \<open>
  \<open>build_rag_json\<close>. Besides the digest, the clock and \<open>pathlib\<close> are parameters:
  \<open>utcnow\<close> is \<open>datetime.utcnow().isoformat()\<close> and \<open>name_of_path\<close> is \<open>Path(p).name\<close>.
\<close>

definition build_rag_json ::
  "(string \<Rightarrow> string) \<Rightarrow> string \<Rightarrow> (string \<Rightarrow> string) \<Rightarrow> parse_results \<Rightarrow> string \<Rightarrow> int \<Rightarrow> int
     \<Rightarrow> rag_json option" where
  "build_rag_json sha1_hexdigest utcnow name_of_path results document_path chunk_size overlap =
     (let fallback = (if document_path \<noteq> [] then name_of_path document_path else ''document'');
          fname = (case get_file_name results of
                     None \<Rightarrow> fallback
                   | Some n \<Rightarrow> if n \<noteq> [] then n else fallback);
          tused = (case get_tool_used results of None \<Rightarrow> ''unknown'' | Some t \<Rightarrow> t);
          ftype = (case get_file_type results of None \<Rightarrow> ''unknown'' | Some t \<Rightarrow> t);
          pages_list = (case get_pages results of None \<Rightarrow> [] | Some ps \<Rightarrow> ps);
          built =
            (if pages_list \<noteq> []
             then pages_loop sha1_hexdigest fname ftype tused chunk_size overlap pages_list []
             else (case chunk_text
                          (clean_text (case get_content results of None \<Rightarrow> [] | Some s \<Rightarrow> s))
                          chunk_size overlap of
                     None \<Rightarrow> None
                   | Some doc_chunks \<Rightarrow>
                       Some (doc_chunk_loop sha1_hexdigest fname ftype tused doc_chunks 0 [])))
      in case built of
           None \<Rightarrow> None
         | Some cs \<Rightarrow>
             Some \<lparr>schema = ''rag_chunks_v1'',
                   created_at = utcnow @ ''Z'',
                   rag_doc = \<lparr>doc_file_name = fname, doc_file_type = ftype,
                               doc_tool_used = tused,
                               doc_file_size = get_file_size results,
                               doc_pdf_analysis = get_pdf_analysis results\<rparr>,
                   chunks = cs\<rparr>)"

text \<open>
  The four parts a chunk's identifier is said to be derived from, read off the chunk:
  the file name, the page number or \<open>doc\<close>, the chunk index, and the first 40
  characters of the chunk text.
\<close>

definition id_parts :: "rag_chunk \<Rightarrow> string list" where
  "id_parts c =
     [meta_file_name (chunk_meta c),
      (case meta_page (chunk_meta c) of None \<Rightarrow> ''doc'' | Some page_num \<Rightarrow> str_page page_num),
      str_nat (meta_chunk_index (chunk_meta c)),
      take 40 (chunk_body c)]"

section \<open>Inputs for the examples\<close>

text \<open>
  A world in which no file exists and every library call raises; the examples
  override the fields they need.
\<close>

definition bare_world :: world where
  "bare_world =
     \<lparr>url_fetch = (\<lambda>u. Inl (OtherError ''no network'')),
      path_exists = (\<lambda>p. False),
      path_ext = (\<lambda>p. []),
      path_name = (\<lambda>p. p),
      getsize = (\<lambda>p. 0),
      fitz_open = (\<lambda>p. Inl (OtherError ''cannot open document'')),
      extract_images_pymupdf = (\<lambda>p. Inr []),
      to_markdown = (\<lambda>p. Inl (ImportError ''No module named pymupdf4llm'')),
      pdfplumber_open = (\<lambda>p. Inl (ImportError ''No module named pdfplumber'')),
      tesseract_images = (\<lambda>p. Inl (ImportError ''No module named pytesseract'')),
      easyocr_images = (\<lambda>lang p. Inl (ImportError ''No module named easyocr'')),
      docling_convert = (\<lambda>p. Inl (ImportError ''No module named docling'')),
      unstructured_partition = (\<lambda>p. Inl (ImportError ''No module named unstructured'')),
      docx_open = (\<lambda>p. Inl (ImportError ''No module named docx'')),
      presentation = (\<lambda>p. Inl (ImportError ''No module named pptx'')),
      load_workbook = (\<lambda>p. Inl (ImportError ''No module named openpyxl'')),
      read_text = (\<lambda>p. Inl (OtherError ''cannot read file''))\<rparr>"

text \<open>A parser with the given tool and the other fields at their defaults.\<close>

definition config_with_tool :: "string option \<Rightarrow> parser_config" where
  "config_with_tool t =
     \<lparr>tool = t, detect_scanned = True, extract_images = False, ocr_lang = ''eng''\<rparr>"

text \<open>A readable page with the given text and images, for the examples.\<close>

definition plain_page :: "string \<Rightarrow> nat list \<Rightarrow> fitz_page" where
  "plain_page t xrefs =
     \<lparr>get_text = Inr t, get_images = Inr xrefs, get_blocks = Inr [],
      rect_width = 612, rect_height = 792\<rparr>"

text \<open>A page whose text cannot be read.\<close>

definition broken_page :: fitz_page where
  "broken_page =
     \<lparr>get_text = Inl (OtherError ''cannot read page''), get_images = Inr [],
      get_blocks = Inr [], rect_width = 612, rect_height = 792\<rparr>"

text \<open>
  A PDF that exists and is scanned (one page, no text, one image), with pdfplumber
  installed and reading one page of text.
\<close>

definition scanned_pdf_world :: world where
  "scanned_pdf_world =
     bare_world
       \<lparr>path_exists := (\<lambda>p. True),
        path_ext := (\<lambda>p. ''pdf''),
        fitz_open := (\<lambda>p. Inr [plain_page '''' [7]]),
        pdfplumber_open :=
          (\<lambda>p. Inr [\<lparr>extract_text = Inr (Some ''hi''), extract_tables = Inr [],
                      plumber_width = 612, plumber_height = 792\<rparr>])\<rparr>"

text \<open>A PDF that exists, on which Docling raises and PyMuPDF cannot open the file.\<close>

definition unreadable_pdf_world :: world where
  "unreadable_pdf_world =
     bare_world
       \<lparr>path_exists := (\<lambda>p. True),
        path_ext := (\<lambda>p. ''pdf''),
        docling_convert := (\<lambda>p. Inl (OtherError ''conversion failed''))\<rparr>"

text \<open>A PDF that exists, on which Docling raises and PyMuPDF reads one page.\<close>

definition docling_failure_world :: world where
  "docling_failure_world =
     unreadable_pdf_world\<lparr>fitz_open := (\<lambda>p. Inr [plain_page ''one'' []])\<rparr>"

text \<open>A PDF that Docling converts: one page, with its markdown and text exports.\<close>

definition docling_world :: world where
  "docling_world =
     bare_world
       \<lparr>path_exists := (\<lambda>p. True),
        path_ext := (\<lambda>p. ''pdf''),
        docling_convert :=
          (\<lambda>p. Inr (Docling_Success
                     \<lparr>export_full_markdown = Inr ''# Title'',
                      num_pages = Inr 1,
                      export_page_markdown = (\<lambda>i. Inr ''# Title''),
                      export_to_text = Inr ''Title''\<rparr>))\<rparr>"

text \<open>A text file that exists.\<close>

definition text_file_world :: world where
  "text_file_world =
     bare_world
       \<lparr>path_exists := (\<lambda>p. True),
        path_ext := (\<lambda>p. ''txt''),
        read_text := (\<lambda>p. Inr ''hi'')\<rparr>"

text \<open>
  The results of parsing a text file of one page, and those of another run on a
  file of the same name whose first page starts alike: another engine, another
  size, a second page.
\<close>

definition text_results :: parse_results where
  "text_results =
     \<lparr>get_file_name = Some ''a.txt'', get_tool_used = Some ''Built-in'',
      get_file_type = Some ''text'', get_file_size = Some 11, get_pdf_analysis = None,
      get_pages = Some [\<lparr>get_page_number = Some 1, get_page_content = Some ''hello world''\<rparr>],
      get_content = Some ''hello world''\<rparr>"

definition other_results :: parse_results where
  "other_results =
     \<lparr>get_file_name = Some ''a.txt'', get_tool_used = Some ''PyMuPDF'',
      get_file_type = Some ''pdf'', get_file_size = Some 2048, get_pdf_analysis = None,
      get_pages = Some [\<lparr>get_page_number = Some 1, get_page_content = Some ''hello world''\<rparr>,
                        \<lparr>get_page_number = Some 2, get_page_content = Some ''more''\<rparr>],
      get_content = None\<rparr>"

text \<open>A stand-in for the digest in the examples: the string itself.\<close>

definition plain_digest :: "string \<Rightarrow> string" where
  "plain_digest s = s"

section \<open>Properties of the string operations\<close>

lemma last_dropWhile_nonempty: "dropWhile P xs \<noteq> [] \<Longrightarrow> last (dropWhile P xs) = last xs"
  by (induction xs) auto

lemma dropWhile_rev_dropWhile:
  "dropWhile P (rev (dropWhile P (rev (dropWhile P s)))) = rev (dropWhile P (rev (dropWhile P s)))"
proof -
  define v where "v = dropWhile P s"
  define u where "u = dropWhile P (rev v)"
  have "rev u = [] \<or> \<not> P (hd (rev u))"
  proof (cases "u = []")
    case True then show ?thesis by simp
  next
    case False
    then have "last u = last (rev v)" unfolding u_def by (rule last_dropWhile_nonempty)
    then have h: "hd (rev u) = hd v" by (simp add: hd_rev last_rev)
    have "v \<noteq> []" using False by (auto simp: u_def)
    then have "\<not> P (hd v)" unfolding v_def by (rule hd_dropWhile)
    then show ?thesis by (simp add: h)
  qed
  then have "dropWhile P (rev u) = rev u" by (simp add: dropWhile_eq_self_iff)
  then show ?thesis by (simp add: u_def v_def)
qed

lemma py_strip_idem: "py_strip (py_strip s) = py_strip s"
  by (simp add: py_strip_def dropWhile_rev_dropWhile)

lemma length_py_strip: "length (py_strip s) \<le> length s"
  unfolding py_strip_def
  by (metis length_dropWhile_le length_rev le_trans)

lemma length_sub_runs: "length rep \<le> k \<Longrightarrow> length (sub_runs P k rep s) \<le> length s"
proof (induction P k rep s rule: sub_runs.induct)
  case (1 P k rep)
  then show ?case by simp
next
  case (2 P k rep c cs)
  have l: "length (takeWhile P cs) + length (dropWhile P cs) = length cs"
    by (metis length_append takeWhile_dropWhile_id)
  show ?case using 2 l
    by (auto simp del: sub_runs.simps simp add: sub_runs.simps(2) [of P k rep c cs])
qed

section \<open>Properties of the chunker\<close>

lemma py_slice_nonneg:
  assumes "0 \<le> a" "a \<le> b" "b \<le> int (length s)"
  shows "py_slice s a b = take (nat (b - a)) (drop (nat a) s)"
proof -
  have "nat a \<le> length s" "nat b \<le> length s" using assms by linarith+
  then show ?thesis using assms
    by (simp add: py_slice_def slice_index_def Let_def min_def nat_diff_distrib)
qed

lemma py_rfind_upper: "py_rfind s sub \<le> int (length s) - int (length sub) \<or> py_rfind s sub \<le> 0"
proof (cases "filter (\<lambda>i. take (length sub) (drop i s) = sub) (rev [0 ..< Suc (length s - length sub)])")
  case Nil
  then show ?thesis by (simp add: py_rfind_def)
next
  case (Cons i js)
  then have "i \<in> set (filter (\<lambda>i. take (length sub) (drop i s) = sub) (rev [0 ..< Suc (length s - length sub)]))"
    by simp
  then have "i \<in> set (rev [0 ..< Suc (length s - length sub)])"
    by (rule filter_is_subset [THEN subsetD])
  then have "i \<le> length s - length sub" by (simp del: upt_Suc)
  moreover have "py_rfind s sub = int i" using Cons by (simp add: py_rfind_def)
  ultimately show ?thesis by (cases "length sub \<le> length s") auto
qed

lemma chunk_step_fst:
  assumes "0 \<le> start" "start < int (length text)" "0 < max_chars"
  shows "start < fst (chunk_step text max_chars start)"
    and "fst (chunk_step text max_chars start) \<le> int (length text)"
    and "fst (chunk_step text max_chars start) \<noteq> int (length text) \<Longrightarrow>
           max_chars < 2 * (fst (chunk_step text max_chars start) - start)"
proof -
  define n where "n = int (length text)"
  define end0 where "end0 = min n (start + max_chars)"
  define chunk0 where "chunk0 = py_slice text start end0"
  define cut where "cut = py_rfind chunk0 [NL, NL]"
  have e0: "start < end0" "end0 \<le> n" using assms by (auto simp: end0_def n_def)
  have len0: "int (length chunk0) = end0 - start"
    using e0 assms unfolding chunk0_def
    by (subst py_slice_nonneg) (auto simp: n_def)
  have cutb: "cut \<le> end0 - start - 2 \<or> cut \<le> 0"
    using py_rfind_upper [of chunk0 "[NL, NL]"] len0 by (simp add: cut_def)
  have step: "chunk_step text max_chars start =
      (if end0 < n \<and> 2 * cut > max_chars then (start + cut, py_slice text start (start + cut))
       else (end0, chunk0))"
    by (simp add: chunk_step_def Let_def n_def end0_def chunk0_def cut_def)
  show "start < fst (chunk_step text max_chars start)"
    using e0 assms cutb by (auto simp: step)
  show "fst (chunk_step text max_chars start) \<le> int (length text)"
    using e0 assms cutb by (auto simp: step n_def)
  show "fst (chunk_step text max_chars start) \<noteq> int (length text) \<Longrightarrow>
           max_chars < 2 * (fst (chunk_step text max_chars start) - start)"
    using e0 assms cutb by (auto simp: step n_def end0_def split: if_splits)
qed

lemma chunk_step_snd:
  "snd (chunk_step text max_chars start) =
     py_slice text start (fst (chunk_step text max_chars start))"
  by (simp add: chunk_step_def Let_def)


lemma chunk_loop_main:
  assumes ov: "0 \<le> overlap" "2 * overlap < max_chars"
  shows "0 \<le> start \<Longrightarrow> start < int (length text) \<Longrightarrow> start \<le> p \<Longrightarrow> p - start \<le> overlap \<Longrightarrow>
         p \<le> int (length text) \<Longrightarrow>
         \<exists>spans. chunk_spans text max_chars overlap start = Some spans
           \<and> (\<forall>acc. chunk_loop text max_chars overlap start acc =
                  Some (acc @ map (\<lambda>(a, b). py_strip (py_slice text a b)) spans))
           \<and> unoverlap text p spans = drop (nat p) text"
proof (induction "nat (int (length text) - start)" arbitrary: start p rule: less_induct)
  case less
  define n where "n = int (length text)"
  define e where "e = fst (chunk_step text max_chars start)"
  have mx: "0 < max_chars" using ov by linarith
  have cs: "chunk_step text max_chars start = (e, py_slice text start e)"
    using chunk_step_snd [of "text" max_chars start] by (simp add: e_def prod_eq_iff)
  have e1: "start < e" "e \<le> n"
    using chunk_step_fst(1,2) [OF less.prems(1,2) mx] by (simp_all add: e_def n_def)
  have e2: "e \<noteq> n \<Longrightarrow> max_chars < 2 * (e - start)"
    using chunk_step_fst(3) [OF less.prems(1,2) mx] by (simp add: e_def n_def)
  have pe: "p \<le> e"
  proof (cases "e = n")
    case True then show ?thesis using less.prems by (simp add: n_def)
  next
    case False
    from e2 [OF False] have "max_chars < 2 * (e - start)" .
    moreover have "p - start \<le> overlap" by fact
    ultimately show ?thesis using ov(2) by arith
  qed
  have sl: "drop (nat (p - start)) (py_slice text start e) = take (nat (e - p)) (drop (nat p) text)"
  proof -
    have "py_slice text start e = take (nat (e - start)) (drop (nat start) text)"
      using less.prems e1 by (intro py_slice_nonneg) (auto simp: n_def)
    moreover have "nat (p - start) + nat start = nat p" using less.prems by linarith
    moreover have "nat (e - start) - nat (p - start) = nat (e - p)" using less.prems pe by linarith
    ultimately show ?thesis by (simp add: drop_take)
  qed
  show ?case
  proof (cases "e = n")
    case True
    have "chunk_spans text max_chars overlap start = Some [(start, e)]"
      using less.prems True by (subst chunk_spans.simps) (simp add: cs n_def)
    moreover have "\<forall>acc. chunk_loop text max_chars overlap start acc =
        Some (acc @ [py_strip (py_slice text start e)])"
      using less.prems True by (subst chunk_loop.simps) (simp add: cs n_def)
    moreover have "unoverlap text p [(start, e)] = drop (nat p) text"
    proof -
      have "length (drop (nat p) text) \<le> nat (e - p)" using True by (simp add: n_def)
      then show ?thesis unfolding unoverlap.simps sl by simp
    qed
    ultimately show ?thesis by simp
  next
    case False
    define s' where "s' = max 0 (e - overlap)"
    have s1: "0 \<le> s'" "start < s'" "s' < n" "s' \<le> e" "e - s' \<le> overlap"
      using e1 e2 [OF False] False ov less.prems by (auto simp: s'_def)
    have "nat (int (length text) - s') < nat (int (length text) - start)"
      using s1 less.prems by (simp add: n_def)
    from less.hyps [OF this s1(1) _ s1(4) s1(5)] s1(3) e1(2)
    obtain spans where sp: "chunk_spans text max_chars overlap s' = Some spans"
      "\<forall>acc. chunk_loop text max_chars overlap s' acc =
         Some (acc @ map (\<lambda>(a, b). py_strip (py_slice text a b)) spans)"
      "unoverlap text e spans = drop (nat e) text"
      by (auto simp: n_def)
    have "chunk_spans text max_chars overlap start = Some ((start, e) # spans)"
      using less.prems False sp(1) by (subst chunk_spans.simps) (simp add: cs n_def s'_def)
    moreover have "\<forall>acc. chunk_loop text max_chars overlap start acc =
        Some (acc @ map (\<lambda>(a, b). py_strip (py_slice text a b)) ((start, e) # spans))"
      using less.prems False sp(2) by (subst chunk_loop.simps) (simp add: cs n_def s'_def)
    moreover have "unoverlap text p ((start, e) # spans) = drop (nat p) text"
    proof -
      have "nat (e - p) + nat p = nat e" using pe less.prems by linarith
      then have "take (nat (e - p)) (drop (nat p) text) @ drop (nat e) text = drop (nat p) text"
        by (metis append_take_drop_id drop_drop)
      then show ?thesis unfolding unoverlap.simps sl sp(3) .
    qed
    ultimately show ?thesis by blast
  qed
qed

lemma length_clean_text: "length (clean_text s) \<le> length s"
proof -
  have "length (clean_text s) \<le> length (sub_runs (\<lambda>c. c = SP \<or> c = TAB) 2 [SP]
          (sub_runs (\<lambda>c. c = NL) 3 [NL, NL] (replace_char CR NL s)))"
    unfolding clean_text_def by (rule length_py_strip)
  also have "\<dots> \<le> length (sub_runs (\<lambda>c. c = NL) 3 [NL, NL] (replace_char CR NL s))"
    by (rule length_sub_runs) simp
  also have "\<dots> \<le> length (replace_char CR NL s)"
    by (rule length_sub_runs) simp
  also have "\<dots> = length s" by (simp add: replace_char_def)
  finally show ?thesis .
qed

lemma py_strip_clean_text: "py_strip (clean_text s) = clean_text s"
  by (simp add: clean_text_def py_strip_idem)

lemma chunk_text_short:
  assumes "clean_text s \<noteq> []" "int (length (clean_text s)) \<le> max_chars"
  shows "chunk_text s max_chars overlap = Some [clean_text s]"
proof -
  define t where "t = clean_text s"
  have n: "0 < int (length t)" using assms(1) by (simp add: t_def)
  have sl: "py_slice t 0 (int (length t)) = t"
    by (subst py_slice_nonneg) simp_all
  have "chunk_step t max_chars 0 = (int (length t), t)"
    using assms(2) by (simp add: chunk_step_def Let_def t_def [symmetric] min_def sl)
  then have "chunk_loop t max_chars overlap 0 [] = Some [py_strip t]"
    using n by (subst chunk_loop.simps) simp
  then show ?thesis using assms(1)
    by (simp add: chunk_text_def Let_def t_def py_strip_clean_text)
qed

text \<open>
  C6 (as amended). \<open>chunk_text("", max_chars, overlap)\<close> is the empty list for all
  parameter values. For a string \<open>s\<close> of fewer than 900 characters,
  \<open>chunk_text(s, 900, 120)\<close> is the one chunk \<open>_clean_text(s)\<close> when that is not empty,
  and the empty list when it is (\<open>s\<close> empty or all whitespace).
\<close>

theorem chunk_text_empty_and_short:
  "chunk_text [] max_chars overlap = Some [] \<and>
   (length s < 900 \<longrightarrow>
      chunk_text s 900 120 = (if clean_text s = [] then Some [] else Some [clean_text s]))"
proof (intro conjI impI)
  show "chunk_text [] max_chars overlap = Some []"
    by (simp add: chunk_text_def clean_text_def py_strip_def replace_char_def)
next
  assume "length s < 900"
  then have "int (length (clean_text s)) \<le> 900"
    using length_clean_text [of s] by linarith
  then show "chunk_text s 900 120 = (if clean_text s = [] then Some [] else Some [clean_text s])"
    using chunk_text_short [of s 900 120] by (simp add: chunk_text_def)
qed

theorem chunk_text_empty_and_short_witness:
  "length ''a  b '' < 900 \<and> clean_text ''a  b '' \<noteq> [] \<and> chunk_text ''a  b '' 900 120 = Some [''a b'']"
proof -
  have c: "clean_text ''a  b '' = ''a b''" by code_simp
  have "length ''a  b '' < 900" by simp
  with chunk_text_empty_and_short [of 900 120 "''a  b ''"] show ?thesis
    by (simp add: c)
qed

text \<open>
  C6 as stated fails at the one-character string \<open>" "\<close>: it has fewer than 900
  characters, and \<open>chunk_text\<close> returns no chunk for it rather than one.
\<close>

theorem chunk_text_blank_counterexample:
  "length [SP] < 900 \<and> chunk_text [SP] 900 120 = Some [] \<and> chunk_text [SP] 900 120 \<noteq> Some [clean_text [SP]]"
  by code_simp

text \<open>
  C10. With \<open>0 \<le> overlap < max_chars / 2\<close>, an iteration of the loop of \<open>chunk_text\<close>
  that starts inside the text and does not reach its end sets \<open>start\<close> to a strictly
  larger value, at least \<open>max_chars / 2 - overlap\<close> further on (stated doubled, over the
  integers), and \<open>chunk_text\<close> returns. The defaults 900 and 120 are an instance.
\<close>

theorem chunk_text_terminates:
  assumes "0 \<le> overlap" "2 * overlap < max_chars"
  shows "(0 \<le> start \<and> start < int (length body)
            \<and> fst (chunk_step body max_chars start) \<noteq> int (length body) \<longrightarrow>
          start < max 0 (fst (chunk_step body max_chars start) - overlap)
            \<and> max_chars - 2 * overlap
                 \<le> 2 * (max 0 (fst (chunk_step body max_chars start) - overlap) - start))
       \<and> (\<exists>chunks. chunk_text text0 max_chars overlap = Some chunks)"
proof (intro conjI impI)
  assume a: "0 \<le> start \<and> start < int (length body)
            \<and> fst (chunk_step body max_chars start) \<noteq> int (length body)"
  have mx: "0 < max_chars" using assms by linarith
  from a have h: "max_chars < 2 * (fst (chunk_step body max_chars start) - start)"
    using chunk_step_fst(3) [of start body max_chars] mx by blast
  then have "start < fst (chunk_step body max_chars start) - overlap"
    using assms by arith
  then show "start < max 0 (fst (chunk_step body max_chars start) - overlap)"
    by linarith
  show "max_chars - 2 * overlap
                 \<le> 2 * (max 0 (fst (chunk_step body max_chars start) - overlap) - start)"
    using h by arith
next
  show "\<exists>chunks. chunk_text text0 max_chars overlap = Some chunks"
  proof (cases "clean_text text0 = []")
    case True then show ?thesis by (simp add: chunk_text_def)
  next
    case False
    then have "0 < int (length (clean_text text0))" by simp
    from chunk_loop_main [OF assms, of 0 "clean_text text0" 0] this assms(1)
    obtain spans where "\<forall>acc. chunk_loop (clean_text text0) max_chars overlap 0 acc =
                  Some (acc @ map (\<lambda>(a, b). py_strip (py_slice (clean_text text0) a b)) spans)"
      by auto
    then show ?thesis by (simp add: chunk_text_def Let_def)
  qed
qed


theorem chunk_text_terminates_witness:
  "(0::int) \<le> 2 \<and> 2 * 2 < (10::int)
   \<and> (0::int) \<le> 0 \<and> 0 < int (length ''aaaaaaaaa bbbbbbbbb'')
   \<and> fst (chunk_step ''aaaaaaaaa bbbbbbbbb'' 10 0) \<noteq> int (length ''aaaaaaaaa bbbbbbbbb'')
   \<and> 0 < max 0 (fst (chunk_step ''aaaaaaaaa bbbbbbbbb'' 10 0) - 2)
   \<and> (\<exists>chunks. chunk_text ''aaaaaaaaa bbbbbbbbb'' 10 2 = Some chunks)
   \<and> (0::int) \<le> 120 \<and> 2 * 120 < (900::int)
   \<and> (\<exists>chunks. chunk_text ''aaaaaaaaa bbbbbbbbb'' 900 120 = Some chunks)"
proof -
  have s: "fst (chunk_step ''aaaaaaaaa bbbbbbbbb'' 10 0) = 10" by code_simp
  have a: "(0::int) \<le> 2" "2 * 2 < (10::int)" by simp_all
  have b: "(0::int) \<le> 120" "2 * 120 < (900::int)" by simp_all
  show ?thesis
    using chunk_text_terminates [OF a, of 0 "''aaaaaaaaa bbbbbbbbb''" "''aaaaaaaaa bbbbbbbbb''"]
      chunk_text_terminates [OF b, of 0 "''aaaaaaaaa bbbbbbbbb''" "''aaaaaaaaa bbbbbbbbb''"]
    by (simp add: s)
qed

text \<open>
  C7 (as amended). With \<open>0 \<le> overlap < max_chars / 2\<close> the loop cuts the normalized text
  into slices \<open>text[start:end]\<close>; the first slice followed by every later slice without
  the characters before its predecessor's end is the normalized text, and the chunks
  returned are these slices trimmed, the empty ones left out.
\<close>

theorem chunk_text_slices_roundtrip:
  assumes "0 \<le> overlap" "2 * overlap < max_chars"
  shows "\<exists>spans. chunk_spans (clean_text text0) max_chars overlap 0 = Some spans
           \<and> chunk_text text0 max_chars overlap =
               Some (filter (\<lambda>c. c \<noteq> [])
                       (map (\<lambda>(a, b). py_strip (py_slice (clean_text text0) a b)) spans))
           \<and> unoverlap (clean_text text0) 0 spans = clean_text text0"
proof (cases "clean_text text0 = []")
  case True
  have "chunk_spans [] max_chars overlap 0 = Some []"
    by (subst chunk_spans.simps) simp
  then show ?thesis using True by (simp add: chunk_text_def)
next
  case False
  then have "0 < int (length (clean_text text0))" by simp
  from chunk_loop_main [OF assms, of 0 "clean_text text0" 0] this
  obtain spans where sp: "chunk_spans (clean_text text0) max_chars overlap 0 = Some spans"
    "\<forall>acc. chunk_loop (clean_text text0) max_chars overlap 0 acc =
        Some (acc @ map (\<lambda>(a, b). py_strip (py_slice (clean_text text0) a b)) spans)"
    "unoverlap (clean_text text0) 0 spans = drop (nat 0) (clean_text text0)"
    using assms(1) by auto
  from sp(2) have "chunk_loop (clean_text text0) max_chars overlap 0 [] =
        Some (map (\<lambda>(a, b). py_strip (py_slice (clean_text text0) a b)) spans)"
    by simp
  then have "chunk_text text0 max_chars overlap =
               Some (filter (\<lambda>c. c \<noteq> [])
                       (map (\<lambda>(a, b). py_strip (py_slice (clean_text text0) a b)) spans))"
    using False by (simp add: chunk_text_def Let_def)
  with sp(1,3) show ?thesis by simp
qed

theorem chunk_text_slices_roundtrip_witness:
  "(0::int) \<le> 2 \<and> 2 * 2 < (10::int)
   \<and> chunk_spans (clean_text ''aaaaaaaaa bbbbbbbbb'') 10 2 0 = Some [(0, 10), (8, 18), (16, 19)]
   \<and> chunk_text ''aaaaaaaaa bbbbbbbbb'' 10 2 = Some [''aaaaaaaaa'', ''a bbbbbbbb'', ''bbb'']
   \<and> unoverlap (clean_text ''aaaaaaaaa bbbbbbbbb'') 0 [(0, 10), (8, 18), (16, 19)]
         = clean_text ''aaaaaaaaa bbbbbbbbb''"
proof -
  have a: "(0::int) \<le> 2" "2 * 2 < (10::int)" by simp_all
  have s: "chunk_spans (clean_text ''aaaaaaaaa bbbbbbbbb'') 10 2 0 = Some [(0, 10), (8, 18), (16, 19)]"
    by code_simp
  have c: "chunk_text ''aaaaaaaaa bbbbbbbbb'' 10 2 = Some [''aaaaaaaaa'', ''a bbbbbbbb'', ''bbb'']"
    by code_simp
  show ?thesis
    using chunk_text_slices_roundtrip [OF a, of "''aaaaaaaaa bbbbbbbbb''"]
    by (simp add: s c)
qed

text \<open>
  C7 as stated fails for the text \<open>"aaaaaaaaa bbbbbbbbb"\<close> cut with \<open>max_chars = 10\<close>
  and \<open>overlap = 0\<close>: the first slice ends in the space, which trimming removes. The
  normalized text has a space and no chunk has one, so the chunks do not rebuild it,
  whatever is removed from them.
\<close>

theorem chunk_text_roundtrip_counterexample:
  "chunk_text ''aaaaaaaaa bbbbbbbbb'' 10 0 = Some [''aaaaaaaaa'', ''bbbbbbbbb'']
   \<and> clean_text ''aaaaaaaaa bbbbbbbbb'' = ''aaaaaaaaa bbbbbbbbb''
   \<and> rejoin 0 [''aaaaaaaaa'', ''bbbbbbbbb''] \<noteq> clean_text ''aaaaaaaaa bbbbbbbbb''
   \<and> CHR '' '' \<in> set (clean_text ''aaaaaaaaa bbbbbbbbb'')
   \<and> CHR '' '' \<notin> set (concat [''aaaaaaaaa'', ''bbbbbbbbb''])"
  by code_simp


section \<open>Properties of the page classifier\<close>

lemma count_pages_without_text_readable:
  "\<forall>p \<in> set ps. \<exists>t. get_text p = Inr t \<Longrightarrow>
   count_pages_without_text ps k =
     Inr (k + length (filter (\<lambda>p. case get_text p of Inl e \<Rightarrow> False
                                     | Inr t \<Rightarrow> length (py_strip t) < 50) ps))"
proof (induction ps arbitrary: k)
  case Nil
  then show ?case by simp
next
  case (Cons p ps)
  then obtain t where t: "get_text p = Inr t" by auto
  have "\<forall>p \<in> set ps. \<exists>t. get_text p = Inr t" using Cons.prems by simp
  from Cons.IH [OF this] show ?case by (auto simp: t Let_def)
qed

lemma count_pages_without_text_unreadable:
  "\<exists>p \<in> set ps. \<exists>e. get_text p = Inl e \<Longrightarrow> \<exists>e. count_pages_without_text ps k = Inl e"
proof (induction ps arbitrary: k)
  case Nil
  then show ?case by simp
next
  case (Cons p ps)
  show ?case
  proof (cases "get_text p")
    case (Inl e)
    then show ?thesis by simp
  next
    case (Inr t)
    then have "\<exists>p \<in> set ps. \<exists>e. get_text p = Inl e" using Cons.prems by auto
    from Cons.IH [OF this] show ?thesis by (simp add: Inr Let_def)
  qed
qed

text \<open>
  C2. \<open>_is_scanned_pdf\<close> returns a truth value in every case. When the document cannot
  be opened, has no page, or one of the sampled pages cannot be read, the value is
  \<open>False\<close>. For a document with at least one page whose sampled pages are readable, it
  is \<open>True\<close> exactly when the number of pages among the first \<open>min(5, total_pages)\<close>
  whose stripped text is shorter than 50 characters, divided by \<open>min(5, total_pages)\<close>,
  is strictly above 0.7.
\<close>

theorem is_scanned_pdf_ratio:
  "is_scanned_pdf (Inl e) = False
   \<and> is_scanned_pdf (Inr []) = False
   \<and> ((\<exists>p \<in> set (take (min 5 (length bad)) bad). \<exists>e. get_text p = Inl e) \<longrightarrow>
        is_scanned_pdf (Inr bad) = False)
   \<and> (doc \<noteq> [] \<and> (\<forall>p \<in> set (take (min 5 (length doc)) doc). \<exists>t. get_text p = Inr t) \<longrightarrow>
        is_scanned_pdf (Inr doc) =
          (real (length (filter (\<lambda>p. case get_text p of Inl e \<Rightarrow> False
                                        | Inr t \<Rightarrow> length (py_strip t) < 50)
                           (take (min 5 (length doc)) doc)))
             / real (min 5 (length doc)) > 7 / 10))"
proof (intro conjI impI)
  show "is_scanned_pdf (Inl e) = False"
    by (simp add: is_scanned_pdf_def is_scanned_pdf_try_def)
  show "is_scanned_pdf (Inr []) = False"
    by (simp add: is_scanned_pdf_def is_scanned_pdf_try_def)
next
  assume "\<exists>p \<in> set (take (min 5 (length bad)) bad). \<exists>e. get_text p = Inl e"
  then obtain e where "count_pages_without_text (take (min 5 (length bad)) bad) 0 = Inl e"
    using count_pages_without_text_unreadable by blast
  then show "is_scanned_pdf (Inr bad) = False"
    by (simp add: is_scanned_pdf_def is_scanned_pdf_try_def Let_def)
next
  assume a: "doc \<noteq> [] \<and> (\<forall>p \<in> set (take (min 5 (length doc)) doc). \<exists>t. get_text p = Inr t)"
  then have m: "min 5 (length doc) \<noteq> 0" by simp
  from a have "\<forall>p \<in> set (take (min 5 (length doc)) doc). \<exists>t. get_text p = Inr t" by blast
  from count_pages_without_text_readable [OF this, of 0] m
  show "is_scanned_pdf (Inr doc) =
          (real (length (filter (\<lambda>p. case get_text p of Inl e \<Rightarrow> False
                                        | Inr t \<Rightarrow> length (py_strip t) < 50)
                           (take (min 5 (length doc)) doc)))
             / real (min 5 (length doc)) > 7 / 10)"
    by (simp add: is_scanned_pdf_def is_scanned_pdf_try_def Let_def)
qed


theorem is_scanned_pdf_ratio_witness:
  "is_scanned_pdf (Inr [plain_page '''' [], plain_page ''x'' [], plain_page '''' [],
         plain_page '' '' [], plain_page (replicate 500 (CHR ''a'')) []])
   \<and> \<not> is_scanned_pdf (Inr [plain_page '''' [], plain_page ''x'' [], plain_page '''' [],
         plain_page (replicate 500 (CHR ''a'')) [], plain_page (replicate 500 (CHR ''a'')) []])
   \<and> \<not> is_scanned_pdf (Inr [plain_page '''' [], broken_page])
   \<and> \<not> is_scanned_pdf (Inl (OtherError ''cannot open document''))"
proof -
  define four where "four = [plain_page '''' [], plain_page ''x'' [], plain_page '''' [],
         plain_page '' '' [], plain_page (replicate 500 (CHR ''a'')) []]"
  define three where "three = [plain_page '''' [], plain_page ''x'' [], plain_page '''' [],
         plain_page (replicate 500 (CHR ''a'')) [], plain_page (replicate 500 (CHR ''a'')) []]"
  define bad where "bad = [plain_page '''' [], broken_page]"
  have h4: "four \<noteq> [] \<and> (\<forall>p \<in> set (take (min 5 (length four)) four). \<exists>t. get_text p = Inr t)"
    by (simp add: four_def plain_page_def)
  have h3: "three \<noteq> [] \<and> (\<forall>p \<in> set (take (min 5 (length three)) three). \<exists>t. get_text p = Inr t)"
    by (simp add: three_def plain_page_def)
  have b: "\<exists>p \<in> set (take (min 5 (length bad)) bad). \<exists>e. get_text p = Inl e"
    by (simp add: bad_def broken_page_def)
  have s: "py_strip (replicate 500 (CHR ''a'')) = replicate 500 (CHR ''a'')"
    by (simp add: py_strip_def is_space_def)
  have s2: "py_strip '' '' = []" "py_strip ''x'' = ''x''" "py_strip [] = []"
    by (simp_all add: py_strip_def is_space_def)
  from is_scanned_pdf_ratio [of "OtherError ''cannot open document''" bad four] h4 b
  have r4: "is_scanned_pdf (Inr four)" "\<not> is_scanned_pdf (Inr bad)"
    "\<not> is_scanned_pdf (Inl (OtherError ''cannot open document''))"
    by (simp_all add: four_def plain_page_def s s2)
  from is_scanned_pdf_ratio [of "OtherError ''cannot open document''" bad three] h3
  have r3: "\<not> is_scanned_pdf (Inr three)"
    by (simp add: three_def plain_page_def s s2)
  show ?thesis
    using r4 r3 unfolding four_def three_def bad_def by (intro conjI)
qed

text \<open>
  C1 at a one-page document whose page has no text and no image: \<open>_analyze_pdf\<close>
  counts the page in \<open>total_pages\<close> and appends it to none of the three lists, so the
  lists do not cover \<open>{1..total_pages}\<close> and the page is not in \<open>scanned_pages\<close>.
\<close>

theorem analyze_pdf_blank_page:
  "analyze_pdf (Inr [plain_page '''' []]) =
     Analysis_Full \<lparr>pdf_type = ''Hybrid'', total_pages = 1, scanned_pages = [],
       hybrid_pages = [], digital_pages = [], has_text = False\<rparr>
   \<and> (case analyze_pdf (Inr [plain_page '''' []]) of
        Analysis_Full a \<Rightarrow>
          1 \<notin> set (scanned_pages a)
          \<and> set (scanned_pages a) \<union> set (hybrid_pages a) \<union> set (digital_pages a)
              \<noteq> {1 .. total_pages a}
      | _ \<Rightarrow> False)"
  by (simp add: analyze_pdf_def plain_page_def py_strip_def)

section \<open>Properties of the engines\<close>

text \<open>
  C9 at a table whose header row has an empty (\<open>None\<close>) cell: the data rows render
  \<open>None\<close> as the empty string, the header row renders it as the text \<open>None\<close>.
\<close>

theorem pdfplumber_header_none:
  "tables_markdown [[[None, Some ''B''], [Some ''1'', None]]] 0 [] =
     [NL] @ ''**Table 1:**'' @ [NL, NL]
       @ ''| None | B |'' @ [NL]
       @ ''|---|---|'' @ [NL]
       @ ''| 1 |  |'' @ [NL]
       @ [NL]"
  by code_simp

lemma pymupdf_loop_blocks:
  "pymupdf_loop doc k cacc pacc = Inr (c, ps) \<Longrightarrow>
   \<exists>new. ps = pacc @ new
     \<and> c = cacc @ map (\<lambda>p. page_block ''## Page '' (page_number p) (page_content p)) new
     \<and> map page_number new = map (\<lambda>i. k + 1 + i) [0 ..< length doc]"
proof (induction doc arbitrary: k cacc pacc)
  case Nil
  then show ?case by simp
next
  case (Cons p doc)
  then obtain t where t: "get_text p = Inr t" by (cases "get_text p") auto
  define q where "q = \<lparr>page_number = k + 1, page_content = t, page_bboxes = None,
                 page_metadata = Some [(''width'', Meta_Real (rect_width p)),
                                       (''height'', Meta_Real (rect_height p))]\<rparr>"
  from Cons.prems have "pymupdf_loop doc (k + 1)
            (cacc @ [page_block ''## Page '' (k + 1) t]) (pacc @ [q]) = Inr (c, ps)"
    by (simp add: t q_def)
  from Cons.IH [OF this] obtain new where new: "ps = (pacc @ [q]) @ new"
     "c = (cacc @ [page_block ''## Page '' (k + 1) t])
            @ map (\<lambda>p. page_block ''## Page '' (page_number p) (page_content p)) new"
     "map page_number new = map (\<lambda>i. k + 1 + 1 + i) [0 ..< length doc]"
    by blast
  have "map page_number (q # new) = map (\<lambda>i. k + 1 + i) [0 ..< length (p # doc)]"
    using new(3) by (simp add: q_def map_upt_Suc del: upt_Suc)
  moreover have "ps = pacc @ (q # new)" using new(1) by simp
  moreover have "c = cacc @ map (\<lambda>p. page_block ''## Page '' (page_number p) (page_content p)) (q # new)"
    using new(2) by (simp add: q_def)
  ultimately show ?case by blast
qed


lemma pdfplumber_loop_blocks:
  "pdfplumber_loop doc k cacc pacc = Inr (c, ps) \<Longrightarrow>
   \<exists>new. ps = pacc @ new
     \<and> c = cacc @ map (\<lambda>p. page_block ''## Page '' (page_number p) (page_content p)) new
     \<and> map page_number new = map (\<lambda>i. k + 1 + i) [0 ..< length doc]"
proof (induction doc arbitrary: k cacc pacc)
  case Nil
  then show ?case by simp
next
  case (Cons p doc)
  then obtain x where x: "extract_text p = Inr x" by (cases "extract_text p") auto
  with Cons.prems obtain tables where tb: "extract_tables p = Inr tables"
    by (cases "extract_tables p") auto
  define t where "t = (case x of None \<Rightarrow> [] | Some s \<Rightarrow> s) @ [NL] @ tables_markdown tables 0 []"
  define q where "q = \<lparr>page_number = k + 1, page_content = t, page_bboxes = None,
                 page_metadata = Some [(''width'', Meta_Real (plumber_width p)),
                                  (''height'', Meta_Real (plumber_height p)),
                                  (''tables_count'', Meta_Int (int (length tables)))]\<rparr>"
  from Cons.prems have "pdfplumber_loop doc (k + 1)
            (cacc @ [page_block ''## Page '' (k + 1) t]) (pacc @ [q]) = Inr (c, ps)"
    by (simp add: x tb q_def t_def Let_def)
  from Cons.IH [OF this] obtain new where new: "ps = (pacc @ [q]) @ new"
     "c = (cacc @ [page_block ''## Page '' (k + 1) t])
            @ map (\<lambda>p. page_block ''## Page '' (page_number p) (page_content p)) new"
     "map page_number new = map (\<lambda>i. k + 1 + 1 + i) [0 ..< length doc]"
    by blast
  have "map page_number (q # new) = map (\<lambda>i. k + 1 + i) [0 ..< length (p # doc)]"
    using new(3) by (simp add: q_def map_upt_Suc del: upt_Suc)
  moreover have "ps = pacc @ (q # new)" using new(1) by simp
  moreover have "c = cacc @ map (\<lambda>p. page_block ''## Page '' (page_number p) (page_content p)) (q # new)"
    using new(2) by (simp add: q_def)
  ultimately show ?case by blast
qed

lemma tesseract_loop_blocks:
  "tesseract_loop doc lang k cacc pacc = Inr (c, ps) \<Longrightarrow>
   \<exists>new. ps = pacc @ new
     \<and> c = cacc @ map (\<lambda>p. page_block ''## Page '' (page_number p) (page_content p)) new
     \<and> map page_number new = map (\<lambda>i. k + 1 + i) [0 ..< length doc]"
proof (induction doc arbitrary: k cacc pacc)
  case Nil
  then show ?case by simp
next
  case (Cons p doc)
  then obtain t where t: "image_to_string p lang = Inr t"
    by (cases "image_to_string p lang") auto
  define q where "q = \<lparr>page_number = k + 1, page_content = t, page_bboxes = None,
                 page_metadata = Some [(''ocr_confidence'', Meta_Str ''N/A''),
                                       (''width'', Meta_Int (int (ocr_width p))),
                                       (''height'', Meta_Int (int (ocr_height p)))]\<rparr>"
  from Cons.prems have "tesseract_loop doc lang (k + 1)
            (cacc @ [page_block ''## Page '' (k + 1) t]) (pacc @ [q]) = Inr (c, ps)"
    by (simp add: t q_def)
  from Cons.IH [OF this] obtain new where new: "ps = (pacc @ [q]) @ new"
     "c = (cacc @ [page_block ''## Page '' (k + 1) t])
            @ map (\<lambda>p. page_block ''## Page '' (page_number p) (page_content p)) new"
     "map page_number new = map (\<lambda>i. k + 1 + 1 + i) [0 ..< length doc]"
    by blast
  have "map page_number (q # new) = map (\<lambda>i. k + 1 + i) [0 ..< length (p # doc)]"
    using new(3) by (simp add: q_def map_upt_Suc del: upt_Suc)
  moreover have "ps = pacc @ (q # new)" using new(1) by simp
  moreover have "c = cacc @ map (\<lambda>p. page_block ''## Page '' (page_number p) (page_content p)) (q # new)"
    using new(2) by (simp add: q_def)
  ultimately show ?case by blast
qed

lemma easyocr_loop_blocks:
  "easyocr_loop doc k cacc pacc = Inr (c, ps) \<Longrightarrow>
   \<exists>new. ps = pacc @ new
     \<and> c = cacc @ map (\<lambda>p. page_block ''## Page '' (page_number p) (page_content p)) new
     \<and> map page_number new = map (\<lambda>i. k + 1 + i) [0 ..< length doc]"
proof (induction doc arbitrary: k cacc pacc)
  case Nil
  then show ?case by simp
next
  case (Cons p doc)
  then obtain ds where ds: "readtext p = Inr ds" by (cases "readtext p") auto
  define t where "t = py_join [NL] ds"
  define q where "q = \<lparr>page_number = k + 1, page_content = t, page_bboxes = None,
                 page_metadata = Some [(''detections'', Meta_Int (int (length ds))),
                             (''width'', Meta_Int (int (ocr_width p))),
                             (''height'', Meta_Int (int (ocr_height p)))]\<rparr>"
  from Cons.prems have "easyocr_loop doc (k + 1)
            (cacc @ [page_block ''## Page '' (k + 1) t]) (pacc @ [q]) = Inr (c, ps)"
    by (simp add: ds q_def t_def Let_def)
  from Cons.IH [OF this] obtain new where new: "ps = (pacc @ [q]) @ new"
     "c = (cacc @ [page_block ''## Page '' (k + 1) t])
            @ map (\<lambda>p. page_block ''## Page '' (page_number p) (page_content p)) new"
     "map page_number new = map (\<lambda>i. k + 1 + 1 + i) [0 ..< length doc]"
    by blast
  have "map page_number (q # new) = map (\<lambda>i. k + 1 + i) [0 ..< length (p # doc)]"
    using new(3) by (simp add: q_def map_upt_Suc del: upt_Suc)
  moreover have "ps = pacc @ (q # new)" using new(1) by simp
  moreover have "c = cacc @ map (\<lambda>p. page_block ''## Page '' (page_number p) (page_content p)) (q # new)"
    using new(2) by (simp add: q_def)
  ultimately show ?case by blast
qed

lemma powerpoint_loop_blocks:
  "powerpoint_loop slides k cacc pacc = (c, ps) \<Longrightarrow>
   \<exists>new. ps = pacc @ new
     \<and> c = cacc @ map (\<lambda>p. page_block ''## Slide '' (page_number p) (page_content p)) new
     \<and> map page_number new = map (\<lambda>i. k + 1 + i) [0 ..< length slides]"
proof (induction slides arbitrary: k cacc pacc)
  case Nil
  then show ?case by simp
next
  case (Cons p slides)
  define t where "t = py_join [NL] (concat (map (\<lambda>shape. case shape of None \<Rightarrow> [] | Some t \<Rightarrow> [t]) p))"
  define q where "q = \<lparr>page_number = k + 1, page_content = t, page_bboxes = None,
                 page_metadata = None\<rparr>"
  from Cons.prems have "powerpoint_loop slides (k + 1)
            (cacc @ [page_block ''## Slide '' (k + 1) t]) (pacc @ [q]) = (c, ps)"
    by (simp add: q_def t_def Let_def)
  from Cons.IH [OF this] obtain new where new: "ps = (pacc @ [q]) @ new"
     "c = (cacc @ [page_block ''## Slide '' (k + 1) t])
            @ map (\<lambda>p. page_block ''## Slide '' (page_number p) (page_content p)) new"
     "map page_number new = map (\<lambda>i. k + 1 + 1 + i) [0 ..< length slides]"
    by blast
  have "map page_number (q # new) = map (\<lambda>i. k + 1 + i) [0 ..< length (p # slides)]"
    using new(3) by (simp add: q_def map_upt_Suc del: upt_Suc)
  moreover have "ps = pacc @ (q # new)" using new(1) by simp
  moreover have "c = cacc @ map (\<lambda>p. page_block ''## Slide '' (page_number p) (page_content p)) (q # new)"
    using new(2) by (simp add: q_def)
  ultimately show ?case by blast
qed

lemma parse_with_pymupdf_content:
  assumes "parse_with_pymupdf w cfg path = Inr d"
  shows "tool_used d = ''PyMuPDF''"
    and "content d = joined_blocks ''## Page '' (pages d)"
    and "map page_number (pages d) = map Suc [0 ..< length (pages d)]"
proof -
  from assms obtain doc where doc: "fitz_open w path = Inr doc"
    by (cases "fitz_open w path") (auto simp: parse_with_pymupdf_def)
  with assms obtain c ps where l: "pymupdf_loop doc 0 [] [] = Inr (c, ps)"
    by (cases "pymupdf_loop doc 0 [] []") (auto simp: parse_with_pymupdf_def)
  from assms doc l have d: "tool_used d = ''PyMuPDF''" "content d = py_join [NL] c" "pages d = ps"
    by (auto simp: parse_with_pymupdf_def split: sum.splits if_splits)
  from pymupdf_loop_blocks [OF l] have
    "c = map (\<lambda>p. page_block ''## Page '' (page_number p) (page_content p)) ps"
    "map page_number ps = map (\<lambda>i. 0 + 1 + i) [0 ..< length doc]"
    by auto
  moreover from this(2) have "length ps = length doc" by (metis length_map length_upt minus_nat.diff_0)
  ultimately show "content d = joined_blocks ''## Page '' (pages d)"
    and "map page_number (pages d) = map Suc [0 ..< length (pages d)]"
    by (simp_all add: d joined_blocks_def)
  show "tool_used d = ''PyMuPDF''" by fact
qed


lemma blocks_numbering:
  assumes "map page_number ps = map (\<lambda>i. 0 + 1 + i) [0 ..< n]"
  shows "map page_number ps = map Suc [0 ..< length ps]"
proof -
  have "length ps = n" using assms by (metis length_map length_upt minus_nat.diff_0)
  then show ?thesis using assms by simp
qed

lemma parse_with_pdfplumber_content:
  assumes "parse_with_pdfplumber w cfg path = Inr d"
  shows "content d = joined_blocks ''## Page '' (pages d)"
    and "map page_number (pages d) = map Suc [0 ..< length (pages d)]"
proof -
  consider (fallback) "parse_with_pymupdf w cfg path = Inr d"
    | (own) doc c ps where "pdfplumber_open w path = Inr doc"
        "pdfplumber_loop doc 0 [] [] = Inr (c, ps)" "content d = py_join [NL] c" "pages d = ps"
    using assms
    by (auto simp: parse_with_pdfplumber_def split: sum.splits error.splits)
  then have "content d = joined_blocks ''## Page '' (pages d)
      \<and> map page_number (pages d) = map Suc [0 ..< length (pages d)]"
  proof cases
    case fallback
    then show ?thesis
      using parse_with_pymupdf_content(2,3) by blast
  next
    case own
    from pdfplumber_loop_blocks [OF own(2)] have
      "c = map (\<lambda>p. page_block ''## Page '' (page_number p) (page_content p)) ps"
      "map page_number ps = map (\<lambda>i. 0 + 1 + i) [0 ..< length doc]"
      by auto
    then show ?thesis
      using blocks_numbering [of ps "length doc"] by (simp add: own joined_blocks_def)
  qed
  then show "content d = joined_blocks ''## Page '' (pages d)"
    and "map page_number (pages d) = map Suc [0 ..< length (pages d)]"
    by simp_all
qed

lemma parse_with_tesseract_content:
  assumes "parse_with_tesseract w cfg path = Inr d"
  shows "content d = joined_blocks ''## Page '' (pages d)"
    and "map page_number (pages d) = map Suc [0 ..< length (pages d)]"
proof -
  obtain doc c ps where own: "tesseract_images w path = Inr doc"
        "tesseract_loop doc (ocr_lang cfg) 0 [] [] = Inr (c, ps)"
        "content d = py_join [NL] c" "pages d = ps"
    using assms
    by (auto simp: parse_with_tesseract_def split: sum.splits error.splits)
  from tesseract_loop_blocks [OF own(2)] have
      "c = map (\<lambda>p. page_block ''## Page '' (page_number p) (page_content p)) ps"
      "map page_number ps = map (\<lambda>i. 0 + 1 + i) [0 ..< length doc]"
    by auto
  then show "content d = joined_blocks ''## Page '' (pages d)"
    and "map page_number (pages d) = map Suc [0 ..< length (pages d)]"
    using blocks_numbering [of ps "length doc"] by (simp_all add: own joined_blocks_def)
qed

lemma parse_with_easyocr_content:
  assumes "parse_with_easyocr w cfg path = Inr d"
  shows "content d = joined_blocks ''## Page '' (pages d)"
    and "map page_number (pages d) = map Suc [0 ..< length (pages d)]"
proof -
  obtain doc c ps where own: "easyocr_images w (ocr_lang cfg) path = Inr doc"
        "easyocr_loop doc 0 [] [] = Inr (c, ps)"
        "content d = py_join [NL] c" "pages d = ps"
    using assms
    by (auto simp: parse_with_easyocr_def split: sum.splits error.splits)
  from easyocr_loop_blocks [OF own(2)] have
      "c = map (\<lambda>p. page_block ''## Page '' (page_number p) (page_content p)) ps"
      "map page_number ps = map (\<lambda>i. 0 + 1 + i) [0 ..< length doc]"
    by auto
  then show "content d = joined_blocks ''## Page '' (pages d)"
    and "map page_number (pages d) = map Suc [0 ..< length (pages d)]"
    using blocks_numbering [of ps "length doc"] by (simp_all add: own joined_blocks_def)
qed

lemma parse_powerpoint_content:
  assumes "parse_powerpoint w cfg path = Inr d"
  shows "content d = joined_blocks ''## Slide '' (pages d)"
    and "map page_number (pages d) = map Suc [0 ..< length (pages d)]"
proof -
  obtain slides c ps where own: "presentation w path = Inr slides"
        "powerpoint_loop slides 0 [] [] = (c, ps)"
        "content d = py_join [NL] c" "pages d = ps"
    using assms
    by (auto simp: parse_powerpoint_def split: sum.splits error.splits prod.splits)
  from powerpoint_loop_blocks [OF own(2)] have
      "c = map (\<lambda>p. page_block ''## Slide '' (page_number p) (page_content p)) ps"
      "map page_number ps = map (\<lambda>i. 0 + 1 + i) [0 ..< length slides]"
    by auto
  then show "content d = joined_blocks ''## Slide '' (pages d)"
    and "map page_number (pages d) = map Suc [0 ..< length (pages d)]"
    using blocks_numbering [of ps "length slides"] by (simp_all add: own joined_blocks_def)
qed

lemma parse_with_docling_try_content:
  assumes "parse_with_docling_try w path = Inr d"
  shows "(errors d = None \<longrightarrow>
           (\<exists>doc full_md. docling_convert w path = Inr (Docling_Success doc)
              \<and> export_full_markdown doc = Inr full_md
              \<and> (if py_strip full_md = [] then export_to_text doc = Inr (content d)
                  else content d = full_md)))
       \<and> (errors d \<noteq> None \<longrightarrow>
           (\<exists>errs. docling_convert w path = Inr (Docling_Failure errs)
              \<and> errors d = Some errs \<and> content d = [] \<and> pages d = []))"
proof (cases "docling_convert w path")
  case (Inl e)
  with assms show ?thesis by (simp add: parse_with_docling_try_def)
next
  case (Inr r)
  show ?thesis
  proof (cases r)
    case (Docling_Failure errs)
    with assms Inr have "d = \<lparr>tool_used = ''Docling'', content = [], pages = [], images = [],
               metadata = [], pdf_analysis = Some Analysis_None, errors = Some errs,
               file_name = None, file_type = None, file_size = None\<rparr>"
      by (simp add: parse_with_docling_try_def)
    then show ?thesis using Inr Docling_Failure by simp
  next
    case (Docling_Success doc)
    note conv = Inr [unfolded Docling_Success]
    from assms conv obtain full_md where fm: "export_full_markdown doc = Inr full_md"
      by (cases "export_full_markdown doc") (simp_all add: parse_with_docling_try_def)
    from assms conv fm obtain page_count where pc: "num_pages doc = Inr page_count"
      by (cases "num_pages doc") (simp_all add: parse_with_docling_try_def)
    from assms conv fm pc obtain pages_acc where
      lp: "docling_loop doc 0 page_count [] = Inr pages_acc"
      by (cases "docling_loop doc 0 page_count []") (simp_all add: parse_with_docling_try_def)
    define final where
      "final = (if py_strip full_md = [] then export_to_text doc else Inr full_md)"
    from assms conv fm pc lp obtain full_md' where f': "final = Inr full_md'"
      by (cases final) (simp_all add: parse_with_docling_try_def final_def)
    from assms conv fm pc lp f' have d: "content d = full_md'" "errors d = None"
      by (auto simp add: parse_with_docling_try_def final_def [symmetric])
    have "if py_strip full_md = [] then export_to_text doc = Inr (content d)
                  else content d = full_md"
      using f' d(1) by (simp add: final_def split: if_splits)
    with conv fm d(2) show ?thesis by auto
  qed
qed

text \<open>
  C5 (as amended). For every result of the PyMuPDF, pdfplumber, Tesseract and EasyOCR
  engines, \<open>content\<close> is the newline-join, over the pages in order, of the heading
  \<open>## Page N\<close> with the page's number, a blank line, the page content and a newline,
  and the pages are numbered from 1 without gaps. The PowerPoint engine builds the
  same under \<open>## Slide N\<close> headings. The text and Word engines return one page whose
  content is \<open>content\<close> itself, and PyMuPDF4LLM returns the library's markdown.
  Docling returns its full markdown export, or its text export when that markdown is
  blank; when it reports a failure, the content is empty and there is no page.
\<close>

theorem engine_content_format:
  "(m \<in> {Parse_with_pymupdf, Parse_with_pdfplumber, Parse_with_tesseract, Parse_with_easyocr}
      \<and> call_parser m w cfg path = Inr d \<longrightarrow>
    content d = joined_blocks ''## Page '' (pages d)
      \<and> map page_number (pages d) = map Suc [0 ..< length (pages d)])
   \<and> (parse_powerpoint w cfg path = Inr d \<longrightarrow>
        content d = joined_blocks ''## Slide '' (pages d)
      \<and> map page_number (pages d) = map Suc [0 ..< length (pages d)])
   \<and> (parse_text w cfg path = Inr d \<or> parse_word w cfg path = Inr d \<longrightarrow>
        map page_number (pages d) = [1] \<and> map page_content (pages d) = [content d])
   \<and> (parse_with_pymupdf4llm_try w cfg path = Inr d \<longrightarrow> to_markdown w path = Inr (content d))
   \<and> (parse_with_docling_try w path = Inr d \<and> errors d = None \<longrightarrow>
        (\<exists>doc full_md. docling_convert w path = Inr (Docling_Success doc)
           \<and> export_full_markdown doc = Inr full_md
           \<and> (if py_strip full_md = [] then export_to_text doc = Inr (content d)
               else content d = full_md)))
   \<and> (parse_with_docling_try w path = Inr d \<and> errors d \<noteq> None \<longrightarrow>
        content d = [] \<and> pages d = [])"
proof (intro conjI impI)
  assume a: "m \<in> {Parse_with_pymupdf, Parse_with_pdfplumber, Parse_with_tesseract, Parse_with_easyocr}
      \<and> call_parser m w cfg path = Inr d"
  then show "content d = joined_blocks ''## Page '' (pages d)"
    using parse_with_pymupdf_content(2) parse_with_pdfplumber_content(1)
      parse_with_tesseract_content(1) parse_with_easyocr_content(1)
    by auto
  from a show "map page_number (pages d) = map Suc [0 ..< length (pages d)]"
    using parse_with_pymupdf_content(3) parse_with_pdfplumber_content(2)
      parse_with_tesseract_content(2) parse_with_easyocr_content(2)
    by auto
next
  assume "parse_powerpoint w cfg path = Inr d"
  then show "content d = joined_blocks ''## Slide '' (pages d)"
    and "map page_number (pages d) = map Suc [0 ..< length (pages d)]"
    by (rule parse_powerpoint_content)+
next
  assume a: "parse_text w cfg path = Inr d \<or> parse_word w cfg path = Inr d"
  then show "map page_number (pages d) = [1]"
    by (auto simp: parse_text_def parse_word_def Let_def split: sum.splits error.splits)
  from a show "map page_content (pages d) = [content d]"
    by (auto simp: parse_text_def parse_word_def Let_def split: sum.splits error.splits)
next
  assume "parse_with_pymupdf4llm_try w cfg path = Inr d"
  then show "to_markdown w path = Inr (content d)"
    by (auto simp: parse_with_pymupdf4llm_try_def split: sum.splits if_splits)
next
  assume "parse_with_docling_try w path = Inr d \<and> errors d = None"
  then show "\<exists>doc full_md. docling_convert w path = Inr (Docling_Success doc)
           \<and> export_full_markdown doc = Inr full_md
           \<and> (if py_strip full_md = [] then export_to_text doc = Inr (content d)
               else content d = full_md)"
    using parse_with_docling_try_content [of w path d] by blast
next
  assume a: "parse_with_docling_try w path = Inr d \<and> errors d \<noteq> None"
  with parse_with_docling_try_content [of w path d]
  obtain errs where "content d = [] \<and> pages d = []" by blast
  then show "content d = []" and "pages d = []" by simp_all
qed

theorem engine_content_format_witness:
  "Parse_with_pymupdf \<in> {Parse_with_pymupdf, Parse_with_pdfplumber, Parse_with_tesseract, Parse_with_easyocr}
   \<and> (\<exists>d. call_parser Parse_with_pymupdf
             (bare_world\<lparr>fitz_open := (\<lambda>p. Inr [plain_page ''one'' [], plain_page ''two'' []])\<rparr>)
             (config_with_tool None) ''a.pdf'' = Inr d
          \<and> content d = ''## Page 1'' @ [NL, NL] @ ''one'' @ [NL] @ [NL]
                          @ ''## Page 2'' @ [NL, NL] @ ''two'' @ [NL]
          \<and> content d = joined_blocks ''## Page '' (pages d)
          \<and> map page_number (pages d) = [1, 2])
   \<and> (\<exists>d. parse_powerpoint (bare_world\<lparr>presentation := (\<lambda>p. Inr [[Some ''a'']])\<rparr>)
             (config_with_tool None) ''deck.pptx'' = Inr d
          \<and> content d = joined_blocks ''## Slide '' (pages d))
   \<and> (\<exists>d. parse_text (bare_world\<lparr>read_text := (\<lambda>p. Inr ''hello'')\<rparr>)
             (config_with_tool None) ''a.txt'' = Inr d
          \<and> map page_content (pages d) = [content d])
   \<and> (\<exists>d. parse_with_pymupdf4llm_try
             (bare_world\<lparr>fitz_open := (\<lambda>p. Inr [plain_page ''one'' []]),
                         to_markdown := (\<lambda>p. Inr ''# one'')\<rparr>)
             (config_with_tool None) ''a.pdf'' = Inr d
          \<and> to_markdown (bare_world\<lparr>fitz_open := (\<lambda>p. Inr [plain_page ''one'' []]),
                         to_markdown := (\<lambda>p. Inr ''# one'')\<rparr>) ''a.pdf'' = Inr (content d))
   \<and> (\<exists>d. parse_with_docling_try docling_world ''a.pdf'' = Inr d
          \<and> errors d = None \<and> content d = ''# Title'')
   \<and> (\<exists>d. parse_with_docling_try
             (bare_world\<lparr>docling_convert := (\<lambda>p. Inr (Docling_Failure [''bad file'']))\<rparr>)
             ''a.pdf'' = Inr d
          \<and> errors d = Some [''bad file''] \<and> content d = [] \<and> pages d = [])"
proof -
  define w1 where "w1 = bare_world\<lparr>fitz_open := (\<lambda>p. Inr [plain_page ''one'' [], plain_page ''two'' []])\<rparr>"
  define w2 where "w2 = bare_world\<lparr>presentation := (\<lambda>p. Inr [[Some ''a'']])\<rparr>"
  define w3 where "w3 = bare_world\<lparr>read_text := (\<lambda>p. Inr ''hello'')\<rparr>"
  define w4 where "w4 = bare_world\<lparr>fitz_open := (\<lambda>p. Inr [plain_page ''one'' []]),
                         to_markdown := (\<lambda>p. Inr ''# one'')\<rparr>"
  define cfg where "cfg = config_with_tool None"
  have s1: "str_nat (Suc 0) = ''1''" "str_nat (Suc (Suc 0)) = ''2''" by code_simp+
  obtain d1 where d1: "call_parser Parse_with_pymupdf w1 cfg ''a.pdf'' = Inr d1"
    "content d1 = ''## Page 1'' @ [NL, NL] @ ''one'' @ [NL] @ [NL]
                          @ ''## Page 2'' @ [NL, NL] @ ''two'' @ [NL]"
    by (simp add: parse_with_pymupdf_def w1_def bare_world_def plain_page_def cfg_def
          config_with_tool_def page_block_def s1)
  obtain d2 where d2: "parse_powerpoint w2 cfg ''deck.pptx'' = Inr d2"
    by (simp add: parse_powerpoint_def w2_def bare_world_def Let_def)
  obtain d3 where d3: "parse_text w3 cfg ''a.txt'' = Inr d3"
    by (simp add: parse_text_def w3_def bare_world_def)
  obtain d4 where d4: "parse_with_pymupdf4llm_try w4 cfg ''a.pdf'' = Inr d4"
    by (simp add: parse_with_pymupdf4llm_try_def w4_def bare_world_def plain_page_def cfg_def
          config_with_tool_def)
  have m: "Parse_with_pymupdf \<in> {Parse_with_pymupdf, Parse_with_pdfplumber, Parse_with_tesseract, Parse_with_easyocr}"
    by simp
  from engine_content_format [of Parse_with_pymupdf w1 cfg "''a.pdf''" d1] m d1(1)
  have r1: "content d1 = joined_blocks ''## Page '' (pages d1)"
    "map page_number (pages d1) = map Suc [0 ..< length (pages d1)]" by blast+
  have "length (pages d1) = 2"
    using d1(1) by (auto simp add: parse_with_pymupdf_def w1_def bare_world_def plain_page_def cfg_def
          config_with_tool_def)
  with r1(2) have n1: "map page_number (pages d1) = [1, 2]"
    by (simp add: upt_rec numeral_2_eq_2)
  from engine_content_format [of Parse_with_pymupdf w2 cfg "''deck.pptx''" d2] d2
  have r2: "content d2 = joined_blocks ''## Slide '' (pages d2)" by blast
  from engine_content_format [of Parse_with_pymupdf w3 cfg "''a.txt''" d3] d3
  have r3: "map page_content (pages d3) = [content d3]" by blast
  from engine_content_format [of Parse_with_pymupdf w4 cfg "''a.pdf''" d4] d4
  have r4: "to_markdown w4 ''a.pdf'' = Inr (content d4)" by blast
  have e1: "\<exists>d. call_parser Parse_with_pymupdf w1 cfg ''a.pdf'' = Inr d
          \<and> content d = ''## Page 1'' @ [NL, NL] @ ''one'' @ [NL] @ [NL]
                          @ ''## Page 2'' @ [NL, NL] @ ''two'' @ [NL]
          \<and> content d = joined_blocks ''## Page '' (pages d)
          \<and> map page_number (pages d) = [1, 2]"
    using d1 r1(1) n1 by (intro exI [of _ d1] conjI)
  have e2: "\<exists>d. parse_powerpoint w2 cfg ''deck.pptx'' = Inr d
          \<and> content d = joined_blocks ''## Slide '' (pages d)"
    using d2 r2 by (intro exI [of _ d2] conjI)
  have e3: "\<exists>d. parse_text w3 cfg ''a.txt'' = Inr d
          \<and> map page_content (pages d) = [content d]"
    using d3 r3 by (intro exI [of _ d3] conjI)
  have e4: "\<exists>d. parse_with_pymupdf4llm_try w4 cfg ''a.pdf'' = Inr d
          \<and> to_markdown w4 ''a.pdf'' = Inr (content d)"
    using d4 r4 by (intro exI [of _ d4] conjI)
  define doc0 where "doc0 = \<lparr>export_full_markdown = Inr ''# Title'',
                      num_pages = Inr 1,
                      export_page_markdown = (\<lambda>i. Inr ''# Title''),
                      export_to_text = Inr ''Title''\<rparr>"
  have cv: "docling_convert docling_world ''a.pdf'' = Inr (Docling_Success doc0)"
    by (simp add: docling_world_def bare_world_def doc0_def)
  have st: "py_strip ''# Title'' \<noteq> []" by code_simp
  have lp: "docling_loop doc0 0 1 [] =
      Inr [\<lparr>page_number = 1, page_content = ''# Title'', page_bboxes = None,
            page_metadata = Some []\<rparr>]"
    by (simp add: doc0_def)
  obtain d5 where d5: "parse_with_docling_try docling_world ''a.pdf'' = Inr d5" "errors d5 = None"
    by (simp add: parse_with_docling_try_def cv lp st) (simp add: doc0_def st)
  from engine_content_format [of Parse_with_pymupdf docling_world cfg "''a.pdf''" d5] d5
  obtain doc full_md where dm: "docling_convert docling_world ''a.pdf'' = Inr (Docling_Success doc)"
    "export_full_markdown doc = Inr full_md"
    "if py_strip full_md = [] then export_to_text doc = Inr (content d5) else content d5 = full_md"
    by blast
  from dm(1) cv have "doc = doc0" by simp
  with dm(2) have "full_md = ''# Title''" by (simp add: doc0_def)
  with dm(3) st have c5: "content d5 = ''# Title''" by simp
  have e5: "\<exists>d. parse_with_docling_try docling_world ''a.pdf'' = Inr d
          \<and> errors d = None \<and> content d = ''# Title''"
    using d5 c5 by (intro exI [of _ d5] conjI)
  define w6 where
    "w6 = bare_world\<lparr>docling_convert := (\<lambda>p. Inr (Docling_Failure [''bad file'']))\<rparr>"
  obtain d6 where d6: "parse_with_docling_try w6 ''a.pdf'' = Inr d6"
    "errors d6 = Some [''bad file'']"
    by (simp add: parse_with_docling_try_def w6_def bare_world_def)
  from d6(2) have "errors d6 \<noteq> None" by simp
  with engine_content_format [of Parse_with_pymupdf w6 cfg "''a.pdf''" d6] d6(1)
  have r6: "content d6 = []" "pages d6 = []" by blast+
  have e6: "\<exists>d. parse_with_docling_try w6 ''a.pdf'' = Inr d
          \<and> errors d = Some [''bad file''] \<and> content d = [] \<and> pages d = []"
    using d6 r6 by (intro exI [of _ d6] conjI)
  show ?thesis
    using m e1 e2 e3 e4 e5 e6 unfolding w1_def w2_def w3_def w4_def w6_def cfg_def
    by (intro conjI)
qed

text \<open>
  C5 as stated fails for the PowerPoint engine: the result for a presentation of one
  slide has a non-empty page list and a content headed \<open>## Slide 1\<close>, which is not the
  concatenation under \<open>## Page N\<close> headings.
\<close>

theorem content_heading_counterexample:
  "parse_powerpoint (bare_world\<lparr>presentation := (\<lambda>p. Inr [[Some ''a'']])\<rparr>)
      (config_with_tool None) ''deck.pptx'' =
     Inr \<lparr>tool_used = ''python-pptx'',
          content = ''## Slide 1'' @ [NL, NL] @ ''a'' @ [NL],
          pages = [\<lparr>page_number = 1, page_content = ''a'', page_bboxes = None,
                    page_metadata = None\<rparr>],
          images = [],
          metadata = [(''slides'', Meta_Int 1)],
          pdf_analysis = None,
          errors = None, file_name = None, file_type = None, file_size = None\<rparr>
   \<and> ''## Slide 1'' @ [NL, NL] @ ''a'' @ [NL] \<noteq>
       headed_pages [\<lparr>page_number = 1, page_content = ''a'', page_bboxes = None,
                    page_metadata = None\<rparr>]"
  by code_simp


section \<open>Properties of \<open>parse\<close>\<close>

lemma parse_with_tool:
  assumes "(if startswith p ''http://'' \<or> startswith p ''https://''
            then download_from_url w p else Inr p) = Inr path"
    and "path_exists w path" and "tool cfg = Some t" and "t \<noteq> []"
  shows "parse w cfg p =
           (case get_parser_method t of
              Inl e \<Rightarrow> Inl e
            | Inr m \<Rightarrow>
                (case call_parser m w cfg path of
                   Inl e \<Rightarrow> Inl e
                 | Inr results \<Rightarrow>
                     Inr (results\<lparr>file_name := Some (path_name w path),
                                  file_type := Some (get_document_type (path_ext w path)),
                                  file_size := Some (getsize w path)\<rparr>)))"
  using assms unfolding parse_def Let_def by (simp split: sum.splits)

text \<open>
  C3 (as amended). For a parse call whose document exists (after the download, for a
  URL) and whose tool is a non-empty string: a tool in \<open>method_map\<close> has its method
  called on the path, and the result (or its exception) is that method's, whatever the
  document type and whatever a scan detection would say; a tool not in \<open>method_map\<close>
  gives the \<open>Unknown tool\<close> error, in every world, so that no engine has a part in
  it. The tool \<open>pdfplumber\<close> is mapped to the pdfplumber method.
\<close>

theorem explicit_tool_selection:
  assumes "(if startswith p ''http://'' \<or> startswith p ''https://''
            then download_from_url w p else Inr p) = Inr path"
    and "path_exists w path" and "tool cfg = Some t" and "t \<noteq> []"
  shows "(map_of method_map t = Some m \<longrightarrow>
            parse w cfg p =
              (case call_parser m w cfg path of
                 Inl e \<Rightarrow> Inl e
               | Inr results \<Rightarrow>
                   Inr (results\<lparr>file_name := Some (path_name w path),
                                file_type := Some (get_document_type (path_ext w path)),
                                file_size := Some (getsize w path)\<rparr>)))
       \<and> (map_of method_map t = None \<longrightarrow>
            parse w cfg p = Inl (ValueError (''Unknown tool: '' @ t)))
       \<and> map_of method_map ''pdfplumber'' = Some Parse_with_pdfplumber"
proof (intro conjI impI)
  assume "map_of method_map t = Some m"
  then show "parse w cfg p =
              (case call_parser m w cfg path of
                 Inl e \<Rightarrow> Inl e
               | Inr results \<Rightarrow>
                   Inr (results\<lparr>file_name := Some (path_name w path),
                                file_type := Some (get_document_type (path_ext w path)),
                                file_size := Some (getsize w path)\<rparr>))"
    by (simp add: parse_with_tool [OF assms] get_parser_method_def)
next
  assume "map_of method_map t = None"
  then show "parse w cfg p = Inl (ValueError (''Unknown tool: '' @ t))"
    by (simp add: parse_with_tool [OF assms] get_parser_method_def)
next
  show "map_of method_map ''pdfplumber'' = Some Parse_with_pdfplumber"
    by (simp add: method_map_def)
qed

theorem explicit_tool_selection_witness:
  "is_scanned_pdf (fitz_open scanned_pdf_world ''scan.pdf'')
   \<and> (\<exists>d. parse scanned_pdf_world (config_with_tool (Some ''pdfplumber'')) ''scan.pdf'' = Inr d
          \<and> tool_used d = ''pdfplumber'')
   \<and> parse scanned_pdf_world (config_with_tool (Some ''nosuchtool'')) ''scan.pdf''
       = Inl (ValueError ''Unknown tool: nosuchtool'')"
proof -
  have r: "(if startswith ''scan.pdf'' ''http://'' \<or> startswith ''scan.pdf'' ''https://''
            then download_from_url scanned_pdf_world ''scan.pdf'' else Inr ''scan.pdf'')
           = Inr ''scan.pdf''"
    by (simp add: startswith_def)
  have x: "path_exists scanned_pdf_world ''scan.pdf''"
    by (simp add: scanned_pdf_world_def bare_world_def)
  have t1: "tool (config_with_tool (Some ''pdfplumber'')) = Some ''pdfplumber''"
    and t2: "tool (config_with_tool (Some ''nosuchtool'')) = Some ''nosuchtool''"
    by (simp_all add: config_with_tool_def)
  have n1: "''pdfplumber'' \<noteq> []" and n2: "''nosuchtool'' \<noteq> []" by simp_all
  have m1: "map_of method_map ''pdfplumber'' = Some Parse_with_pdfplumber"
    and m2: "map_of method_map ''nosuchtool'' = None"
    by (simp_all add: method_map_def)
  have s: "is_scanned_pdf (fitz_open scanned_pdf_world ''scan.pdf'')"
    by (simp add: scanned_pdf_world_def bare_world_def plain_page_def is_scanned_pdf_def
          is_scanned_pdf_try_def py_strip_def)
  obtain d0 where d0: "parse_with_pdfplumber scanned_pdf_world (config_with_tool (Some ''pdfplumber''))
        ''scan.pdf'' = Inr d0" "tool_used d0 = ''pdfplumber''"
    by (simp add: parse_with_pdfplumber_def scanned_pdf_world_def bare_world_def Let_def)
  from explicit_tool_selection [OF r x t1 n1, of Parse_with_pdfplumber] m1 d0
  have "parse scanned_pdf_world (config_with_tool (Some ''pdfplumber'')) ''scan.pdf'' =
          Inr (d0\<lparr>file_name := Some (path_name scanned_pdf_world ''scan.pdf''),
                  file_type := Some (get_document_type (path_ext scanned_pdf_world ''scan.pdf'')),
                  file_size := Some (getsize scanned_pdf_world ''scan.pdf'')\<rparr>)"
    by simp
  then have e: "\<exists>d. parse scanned_pdf_world (config_with_tool (Some ''pdfplumber'')) ''scan.pdf'' = Inr d
          \<and> tool_used d = ''pdfplumber''"
    using d0(2) by simp
  from explicit_tool_selection [OF r x t2 n2, of Parse_with_pdfplumber] m2
  have u: "parse scanned_pdf_world (config_with_tool (Some ''nosuchtool'')) ''scan.pdf''
       = Inl (ValueError ''Unknown tool: nosuchtool'')"
    by simp
  show ?thesis using s e u by (intro conjI)
qed

text \<open>
  C3 as stated fails for a document that does not exist: with the unregistered tool
  \<open>nosuchtool\<close>, \<open>parse\<close> raises \<open>FileNotFoundError\<close>, not \<open>Unknown tool\<close>. And the
  empty string, which is not registered either, makes \<open>parse\<close> select by document
  type: the text engine runs.
\<close>

theorem explicit_tool_counterexample:
  "map_of method_map ''nosuchtool'' = None
   \<and> parse bare_world (config_with_tool (Some ''nosuchtool'')) ''missing.pdf''
       = Inl (FileNotFoundError ''Document not found: missing.pdf'')
   \<and> parse bare_world (config_with_tool (Some ''nosuchtool'')) ''missing.pdf''
       \<noteq> Inl (ValueError ''Unknown tool: nosuchtool'')
   \<and> map_of method_map [] = None
   \<and> parse text_file_world (config_with_tool (Some [])) ''a.txt''
       = Inr \<lparr>tool_used = ''Built-in'', content = ''hi'',
              pages = [\<lparr>page_number = 1, page_content = ''hi'', page_bboxes = None,
                        page_metadata = None\<rparr>],
              images = [], metadata = [(''lines'', Meta_Int 1)], pdf_analysis = None,
              errors = None, file_name = Some ''a.txt'', file_type = Some ''text'',
              file_size = Some 0\<rparr>"
  by (simp add: method_map_def parse_def bare_world_def text_file_world_def config_with_tool_def
        startswith_def get_document_type_def SUPPORTED_EXTENSIONS_def auto_select_parser_def
        parse_text_def NL_def)

text \<open>
  C4 (as amended). When the body of \<open>_parse_with_docling\<close> raises, on an existing
  document parsed with the tool \<open>docling\<close>, \<open>parse\<close> discards that exception and
  answers with \<open>_parse_with_pymupdf\<close> on the same path: when PyMuPDF returns, the
  result is its document, with \<open>tool_used = 'PyMuPDF'\<close>; when PyMuPDF raises, that
  exception leaves \<open>parse\<close>.
\<close>

theorem docling_failure_falls_back:
  assumes "(if startswith p ''http://'' \<or> startswith p ''https://''
            then download_from_url w p else Inr p) = Inr path"
    and "path_exists w path" and "tool cfg = Some ''docling''"
    and "parse_with_docling_try w path = Inl e"
  shows "parse w cfg p =
           (case parse_with_pymupdf w cfg path of
              Inl e' \<Rightarrow> Inl e'
            | Inr results \<Rightarrow>
                Inr (results\<lparr>file_name := Some (path_name w path),
                             file_type := Some (get_document_type (path_ext w path)),
                             file_size := Some (getsize w path)\<rparr>))
       \<and> (\<forall>results. parse_with_pymupdf w cfg path = Inr results \<longrightarrow>
             (\<exists>d. parse w cfg p = Inr d \<and> tool_used d = ''PyMuPDF''
                  \<and> content d = content results \<and> pages d = pages results
                  \<and> images d = images results \<and> metadata d = metadata results
                  \<and> pdf_analysis d = pdf_analysis results))
       \<and> (\<forall>e'. parse_with_pymupdf w cfg path = Inl e' \<longrightarrow> parse w cfg p = Inl e')"
proof -
  have fb: "parse_with_docling w cfg path = parse_with_pymupdf w cfg path"
    using assms(4) by (simp add: parse_with_docling_def split: error.splits)
  have m: "get_parser_method ''docling'' = Inr Parse_with_docling"
    by (simp add: get_parser_method_def method_map_def)
  have p: "parse w cfg p =
           (case parse_with_pymupdf w cfg path of
              Inl e' \<Rightarrow> Inl e'
            | Inr results \<Rightarrow>
                Inr (results\<lparr>file_name := Some (path_name w path),
                             file_type := Some (get_document_type (path_ext w path)),
                             file_size := Some (getsize w path)\<rparr>))"
    using parse_with_tool [OF assms(1,2,3)] by (simp add: m fb)
  show ?thesis
  proof (intro conjI allI impI)
    show "parse w cfg p =
           (case parse_with_pymupdf w cfg path of
              Inl e' \<Rightarrow> Inl e'
            | Inr results \<Rightarrow>
                Inr (results\<lparr>file_name := Some (path_name w path),
                             file_type := Some (get_document_type (path_ext w path)),
                             file_size := Some (getsize w path)\<rparr>))"
      by (rule p)
  next
    fix results assume r: "parse_with_pymupdf w cfg path = Inr results"
    then have "tool_used results = ''PyMuPDF''" by (rule parse_with_pymupdf_content(1))
    then show "\<exists>d. parse w cfg p = Inr d \<and> tool_used d = ''PyMuPDF''
                  \<and> content d = content results \<and> pages d = pages results
                  \<and> images d = images results \<and> metadata d = metadata results
                  \<and> pdf_analysis d = pdf_analysis results"
      by (simp add: p r)
  next
    fix e' assume "parse_with_pymupdf w cfg path = Inl e'"
    then show "parse w cfg p = Inl e'" by (simp add: p)
  qed
qed

theorem docling_failure_falls_back_witness:
  "parse_with_docling_try docling_failure_world ''a.pdf'' = Inl (OtherError ''conversion failed'')
   \<and> (\<exists>d. parse docling_failure_world (config_with_tool (Some ''docling'')) ''a.pdf'' = Inr d
          \<and> tool_used d = ''PyMuPDF'')"
proof -
  have r: "(if startswith ''a.pdf'' ''http://'' \<or> startswith ''a.pdf'' ''https://''
            then download_from_url docling_failure_world ''a.pdf'' else Inr ''a.pdf'')
           = Inr ''a.pdf''"
    by (simp add: startswith_def)
  have x: "path_exists docling_failure_world ''a.pdf''"
    by (simp add: docling_failure_world_def unreadable_pdf_world_def bare_world_def)
  have t: "tool (config_with_tool (Some ''docling'')) = Some ''docling''"
    by (simp add: config_with_tool_def)
  have f: "parse_with_docling_try docling_failure_world ''a.pdf'' = Inl (OtherError ''conversion failed'')"
    by (simp add: parse_with_docling_try_def docling_failure_world_def unreadable_pdf_world_def
          bare_world_def)
  obtain d0 where d0: "parse_with_pymupdf docling_failure_world (config_with_tool (Some ''docling''))
        ''a.pdf'' = Inr d0"
    by (simp add: parse_with_pymupdf_def docling_failure_world_def unreadable_pdf_world_def
          bare_world_def plain_page_def config_with_tool_def)
  from docling_failure_falls_back [OF r x t f] d0
  have "\<exists>d. parse docling_failure_world (config_with_tool (Some ''docling'')) ''a.pdf'' = Inr d
          \<and> tool_used d = ''PyMuPDF''"
    by blast
  with f show ?thesis by (intro conjI)
qed

text \<open>
  C4 as stated fails when the fallback fails too: on a file that Docling cannot
  convert and PyMuPDF cannot open, \<open>parse\<close> raises and returns no document.
\<close>

theorem docling_failure_counterexample:
  "parse_with_docling_try unreadable_pdf_world ''a.pdf'' = Inl (OtherError ''conversion failed'')
   \<and> parse unreadable_pdf_world (config_with_tool (Some ''docling'')) ''a.pdf''
       = Inl (OtherError ''cannot open document'')"
  by (simp add: parse_with_docling_try_def unreadable_pdf_world_def bare_world_def parse_def
        startswith_def config_with_tool_def get_parser_method_def method_map_def
        parse_with_docling_def parse_with_pymupdf_def)


section \<open>Properties of the RAG export\<close>

lemma page_chunk_loop_ids:
  "\<forall>c \<in> set out. chunk_id c = stable_id sha (id_parts c) \<and> meta_file_name (chunk_meta c) = fname \<Longrightarrow>
   \<forall>c \<in> set (page_chunk_loop sha fname ftype tused page_num chs i out).
      chunk_id c = stable_id sha (id_parts c) \<and> meta_file_name (chunk_meta c) = fname"
proof (induction chs arbitrary: i out)
  case Nil
  then show ?case by simp
next
  case (Cons ch chs)
  define new where "new =
     \<lparr>chunk_id = stable_id sha [fname, str_page page_num, str_nat i, take 40 ch],
      chunk_body = ch,
      chunk_meta = \<lparr>meta_file_name = fname, meta_file_type = ftype,
                     meta_tool_used = tused, meta_page = Some page_num,
                     meta_chunk_index = i\<rparr>\<rparr>"
  have "\<forall>c \<in> set (out @ [new]).
      chunk_id c = stable_id sha (id_parts c) \<and> meta_file_name (chunk_meta c) = fname"
    using Cons.prems by (simp add: new_def id_parts_def)
  from Cons.IH [OF this] show ?case by (simp add: new_def)
qed

lemma doc_chunk_loop_ids:
  "\<forall>c \<in> set out. chunk_id c = stable_id sha (id_parts c) \<and> meta_file_name (chunk_meta c) = fname \<Longrightarrow>
   \<forall>c \<in> set (doc_chunk_loop sha fname ftype tused chs i out).
      chunk_id c = stable_id sha (id_parts c) \<and> meta_file_name (chunk_meta c) = fname"
proof (induction chs arbitrary: i out)
  case Nil
  then show ?case by simp
next
  case (Cons ch chs)
  define new where "new =
     \<lparr>chunk_id = stable_id sha [fname, ''doc'', str_nat i, take 40 ch],
      chunk_body = ch,
      chunk_meta = \<lparr>meta_file_name = fname, meta_file_type = ftype,
                     meta_tool_used = tused, meta_page = None,
                     meta_chunk_index = i\<rparr>\<rparr>"
  have "\<forall>c \<in> set (out @ [new]).
      chunk_id c = stable_id sha (id_parts c) \<and> meta_file_name (chunk_meta c) = fname"
    using Cons.prems by (simp add: new_def id_parts_def)
  from Cons.IH [OF this] show ?case by (simp add: new_def)
qed

lemma pages_loop_ids:
  "pages_loop sha fname ftype tused cs ov ps out = Some res \<Longrightarrow>
   \<forall>c \<in> set out. chunk_id c = stable_id sha (id_parts c) \<and> meta_file_name (chunk_meta c) = fname \<Longrightarrow>
   \<forall>c \<in> set res. chunk_id c = stable_id sha (id_parts c) \<and> meta_file_name (chunk_meta c) = fname"
proof (induction ps arbitrary: out)
  case Nil
  then show ?case by simp
next
  case (Cons p ps)
  define page_text where
    "page_text = clean_text (case get_page_content p of None \<Rightarrow> [] | Some s \<Rightarrow> s)"
  have step: "pages_loop sha fname ftype tused cs ov (p # ps) out =
      (if page_text = [] then pages_loop sha fname ftype tused cs ov ps out
       else (case chunk_text page_text cs ov of
               None \<Rightarrow> None
             | Some page_chunks \<Rightarrow>
                 pages_loop sha fname ftype tused cs ov ps
                   (page_chunk_loop sha fname ftype tused (get_page_number p) page_chunks 0 out)))"
    unfolding pages_loop.simps Let_def page_text_def by (rule refl)
  show ?case
  proof (cases "page_text = []")
    case True
    with Cons.prems(1) have "pages_loop sha fname ftype tused cs ov ps out = Some res"
      unfolding step by simp
    from Cons.IH [OF this Cons.prems(2)] show ?thesis .
  next
    case False
    show ?thesis
    proof (cases "chunk_text page_text cs ov")
      case None
      with False Cons.prems(1) show ?thesis unfolding step by simp
    next
      case (Some chs)
      with False Cons.prems(1) have rec: "pages_loop sha fname ftype tused cs ov ps
             (page_chunk_loop sha fname ftype tused (get_page_number p) chs 0 out) = Some res"
        unfolding step by simp
      from Cons.IH [OF rec page_chunk_loop_ids [OF Cons.prems(2)]] show ?thesis .
    qed
  qed
qed

lemma build_rag_json_ids:
  assumes "build_rag_json sha now pname results document_path chunk_size overlap = Some rag"
    and "c \<in> set (chunks rag)"
  shows "chunk_id c = stable_id sha (id_parts c)"
    and "meta_file_name (chunk_meta c) = doc_file_name (rag_doc rag)"
proof -
  define fallback where
    "fallback = (if document_path \<noteq> [] then pname document_path else ''document'')"
  define fname where "fname = (case get_file_name results of
                     None \<Rightarrow> fallback
                   | Some n \<Rightarrow> if n \<noteq> [] then n else fallback)"
  define tused where "tused = (case get_tool_used results of None \<Rightarrow> ''unknown'' | Some t \<Rightarrow> t)"
  define ftype where "ftype = (case get_file_type results of None \<Rightarrow> ''unknown'' | Some t \<Rightarrow> t)"
  define ps where "ps = (case get_pages results of None \<Rightarrow> [] | Some ps \<Rightarrow> ps)"
  define body where
    "body = clean_text (case get_content results of None \<Rightarrow> [] | Some s \<Rightarrow> s)"
  define built where "built = (if ps \<noteq> []
             then pages_loop sha fname ftype tused chunk_size overlap ps []
             else (case chunk_text body chunk_size overlap of
                     None \<Rightarrow> None
                   | Some doc_chunks \<Rightarrow>
                       Some (doc_chunk_loop sha fname ftype tused doc_chunks 0 [])))"
  have eq: "build_rag_json sha now pname results document_path chunk_size overlap =
      (case built of
           None \<Rightarrow> None
         | Some cs \<Rightarrow>
             Some \<lparr>schema = ''rag_chunks_v1'',
                   created_at = now @ ''Z'',
                   rag_doc = \<lparr>doc_file_name = fname, doc_file_type = ftype,
                               doc_tool_used = tused,
                               doc_file_size = get_file_size results,
                               doc_pdf_analysis = get_pdf_analysis results\<rparr>,
                   chunks = cs\<rparr>)"
    unfolding build_rag_json_def Let_def built_def body_def ps_def ftype_def tused_def fname_def
      fallback_def
    by (rule refl)
  obtain cs where b: "built = Some cs"
    using assms(1) unfolding eq by (cases built) simp_all
  from assms(1) have rag: "rag = \<lparr>schema = ''rag_chunks_v1'',
                   created_at = now @ ''Z'',
                   rag_doc = \<lparr>doc_file_name = fname, doc_file_type = ftype,
                               doc_tool_used = tused,
                               doc_file_size = get_file_size results,
                               doc_pdf_analysis = get_pdf_analysis results\<rparr>,
                   chunks = cs\<rparr>"
    unfolding eq b by simp
  have ch: "chunks rag = cs" and f: "doc_file_name (rag_doc rag) = fname"
    unfolding rag by simp_all
  have all: "\<forall>c \<in> set cs. chunk_id c = stable_id sha (id_parts c)
      \<and> meta_file_name (chunk_meta c) = fname"
  proof (cases "ps = []")
    case False
    with b have "pages_loop sha fname ftype tused chunk_size overlap ps [] = Some cs"
      unfolding built_def by simp
    from pages_loop_ids [OF this] show ?thesis by simp
  next
    case True
    show ?thesis
    proof (cases "chunk_text body chunk_size overlap")
      case None
      with True b show ?thesis unfolding built_def by simp
    next
      case (Some chs)
      with True b have "cs = doc_chunk_loop sha fname ftype tused chs 0 []"
        unfolding built_def by simp
      then show ?thesis
        using doc_chunk_loop_ids [of "[]" sha fname ftype tused chs 0] by simp
    qed
  qed
  from all assms(2) show "chunk_id c = stable_id sha (id_parts c)"
    unfolding ch by blast
  from all assms(2) show "meta_file_name (chunk_meta c) = doc_file_name (rag_doc rag)"
    unfolding ch f by blast
qed

text \<open>
  With \<open>0 \<le> overlap < chunk_size / 2\<close> every call of \<open>chunk_text\<close> returns, and so does
  \<open>build_rag_json\<close>.
\<close>

lemma chunk_text_returns:
  assumes "0 \<le> overlap" "2 * overlap < max_chars"
  shows "\<exists>chunks. chunk_text text0 max_chars overlap = Some chunks"
proof (cases "clean_text text0 = []")
  case True
  then show ?thesis by (simp add: chunk_text_def)
next
  case False
  then have "0 < int (length (clean_text text0))" by simp
  from chunk_loop_main [OF assms, of 0 "clean_text text0" 0] this assms(1)
  obtain spans where "\<forall>acc. chunk_loop (clean_text text0) max_chars overlap 0 acc =
                Some (acc @ map (\<lambda>(a, b). py_strip (py_slice (clean_text text0) a b)) spans)"
    by auto
  then show ?thesis by (simp add: chunk_text_def Let_def)
qed

lemma pages_loop_returns:
  assumes "0 \<le> overlap" "2 * overlap < chunk_size"
  shows "\<exists>res. pages_loop sha fname ftype tused chunk_size overlap ps out = Some res"
proof (induction ps arbitrary: out)
  case Nil
  show ?case by simp
next
  case (Cons p ps)
  define page_text where
    "page_text = clean_text (case get_page_content p of None \<Rightarrow> [] | Some s \<Rightarrow> s)"
  obtain chs where chs: "chunk_text page_text chunk_size overlap = Some chs"
    using chunk_text_returns [OF assms] by blast
  have step: "pages_loop sha fname ftype tused chunk_size overlap (p # ps) out =
      (if page_text = [] then pages_loop sha fname ftype tused chunk_size overlap ps out
       else pages_loop sha fname ftype tused chunk_size overlap ps
                   (page_chunk_loop sha fname ftype tused (get_page_number p) chs 0 out))"
    unfolding pages_loop.simps Let_def page_text_def [symmetric] chs by simp
  show ?case unfolding step using Cons.IH by simp
qed

lemma build_rag_json_returns:
  assumes "0 \<le> overlap" "2 * overlap < chunk_size"
  shows "\<exists>rag. build_rag_json sha now pname results document_path chunk_size overlap = Some rag"
proof -
  define fallback where
    "fallback = (if document_path \<noteq> [] then pname document_path else ''document'')"
  define fname where "fname = (case get_file_name results of
                     None \<Rightarrow> fallback
                   | Some n \<Rightarrow> if n \<noteq> [] then n else fallback)"
  define tused where "tused = (case get_tool_used results of None \<Rightarrow> ''unknown'' | Some t \<Rightarrow> t)"
  define ftype where "ftype = (case get_file_type results of None \<Rightarrow> ''unknown'' | Some t \<Rightarrow> t)"
  define ps where "ps = (case get_pages results of None \<Rightarrow> [] | Some ps \<Rightarrow> ps)"
  define body where
    "body = clean_text (case get_content results of None \<Rightarrow> [] | Some s \<Rightarrow> s)"
  define built where "built = (if ps \<noteq> []
             then pages_loop sha fname ftype tused chunk_size overlap ps []
             else (case chunk_text body chunk_size overlap of
                     None \<Rightarrow> None
                   | Some doc_chunks \<Rightarrow>
                       Some (doc_chunk_loop sha fname ftype tused doc_chunks 0 [])))"
  have eq: "build_rag_json sha now pname results document_path chunk_size overlap =
      (case built of
           None \<Rightarrow> None
         | Some cs \<Rightarrow>
             Some \<lparr>schema = ''rag_chunks_v1'',
                   created_at = now @ ''Z'',
                   rag_doc = \<lparr>doc_file_name = fname, doc_file_type = ftype,
                               doc_tool_used = tused,
                               doc_file_size = get_file_size results,
                               doc_pdf_analysis = get_pdf_analysis results\<rparr>,
                   chunks = cs\<rparr>)"
    unfolding build_rag_json_def Let_def built_def body_def ps_def ftype_def tused_def fname_def
      fallback_def
    by (rule refl)
  obtain chs where chs: "chunk_text body chunk_size overlap = Some chs"
    using chunk_text_returns [OF assms] by blast
  obtain res where res: "pages_loop sha fname ftype tused chunk_size overlap ps [] = Some res"
    using pages_loop_returns [OF assms] by blast
  have "\<exists>cs. built = Some cs" unfolding built_def chs res by simp
  then show ?thesis unfolding eq by auto
qed

text \<open>
  C8. Every chunk of an export \<open>build_rag_json\<close> returns has as identifier the first
  16 characters of the digest of its four parts joined by \<open>|\<close>: the file name, the page
  number or \<open>doc\<close>, the chunk index and the first 40 characters of the chunk text, all
  read off the chunk itself. So two chunks with the same four parts, of any two
  exports, have the same identifier. The digest is any fixed function, SHA-1 in the
  source.
\<close>

theorem chunk_id_is_hash_of_parts:
  assumes "build_rag_json sha1_hexdigest utcnow name_of_path results document_path chunk_size overlap
             = Some rag"
    and "c \<in> set (chunks rag)"
    and "build_rag_json sha1_hexdigest utcnow' name_of_path' results' document_path' chunk_size'
             overlap' = Some rag'"
    and "c' \<in> set (chunks rag')"
  shows "chunk_id c = take 16 (sha1_hexdigest (py_join ''|'' (id_parts c)))
       \<and> meta_file_name (chunk_meta c) = doc_file_name (rag_doc rag)
       \<and> (id_parts c = id_parts c' \<longrightarrow> chunk_id c = chunk_id c')"
proof (intro conjI impI)
  have c: "chunk_id c = stable_id sha1_hexdigest (id_parts c)"
    using assms(1,2) by (rule build_rag_json_ids(1))
  have c': "chunk_id c' = stable_id sha1_hexdigest (id_parts c')"
    using assms(3,4) by (rule build_rag_json_ids(1))
  show "chunk_id c = take 16 (sha1_hexdigest (py_join ''|'' (id_parts c)))"
    unfolding c stable_id_def by (rule refl)
  show "meta_file_name (chunk_meta c) = doc_file_name (rag_doc rag)"
    using assms(1,2) by (rule build_rag_json_ids(2))
  assume "id_parts c = id_parts c'"
  then show "chunk_id c = chunk_id c'" unfolding c c' by (rule arg_cong)
qed

theorem chunk_id_is_hash_of_parts_witness:
  "\<exists>rag c rag' c'.
     build_rag_json plain_digest ''2024-05-01T10:00:00'' (\<lambda>p. p) text_results ''a.txt'' 900 120
       = Some rag
     \<and> c \<in> set (chunks rag)
     \<and> build_rag_json plain_digest ''2024-06-30T23:59:59'' (\<lambda>p. p) other_results ''b/a.txt'' 900 120
       = Some rag'
     \<and> c' \<in> set (chunks rag')
     \<and> id_parts c = [''a.txt'', ''1'', ''0'', ''hello world'']
     \<and> id_parts c = id_parts c'
     \<and> chunk_id c = ''a.txt|1|0|hello ''
     \<and> chunk_id c = chunk_id c'
     \<and> meta_tool_used (chunk_meta c) \<noteq> meta_tool_used (chunk_meta c')"
proof -
  define c1 where "c1 =
     \<lparr>chunk_id = ''a.txt|1|0|hello '', chunk_body = ''hello world'',
      chunk_meta = \<lparr>meta_file_name = ''a.txt'', meta_file_type = ''text'',
                     meta_tool_used = ''Built-in'', meta_page = Some (Some 1),
                     meta_chunk_index = 0\<rparr>\<rparr>"
  define c2 where "c2 =
     \<lparr>chunk_id = ''a.txt|1|0|hello '', chunk_body = ''hello world'',
      chunk_meta = \<lparr>meta_file_name = ''a.txt'', meta_file_type = ''pdf'',
                     meta_tool_used = ''PyMuPDF'', meta_page = Some (Some 1),
                     meta_chunk_index = 0\<rparr>\<rparr>"
  define c3 where "c3 =
     \<lparr>chunk_id = ''a.txt|2|0|more'', chunk_body = ''more'',
      chunk_meta = \<lparr>meta_file_name = ''a.txt'', meta_file_type = ''pdf'',
                     meta_tool_used = ''PyMuPDF'', meta_page = Some (Some 2),
                     meta_chunk_index = 0\<rparr>\<rparr>"
  define rag1 where "rag1 =
     \<lparr>schema = ''rag_chunks_v1'', created_at = ''2024-05-01T10:00:00Z'',
      rag_doc = \<lparr>doc_file_name = ''a.txt'', doc_file_type = ''text'',
                  doc_tool_used = ''Built-in'', doc_file_size = Some 11,
                  doc_pdf_analysis = None\<rparr>,
      chunks = [c1]\<rparr>"
  define rag2 where "rag2 =
     \<lparr>schema = ''rag_chunks_v1'', created_at = ''2024-06-30T23:59:59Z'',
      rag_doc = \<lparr>doc_file_name = ''a.txt'', doc_file_type = ''pdf'',
                  doc_tool_used = ''PyMuPDF'', doc_file_size = Some 2048,
                  doc_pdf_analysis = None\<rparr>,
      chunks = [c2, c3]\<rparr>"
  have b1: "build_rag_json plain_digest ''2024-05-01T10:00:00'' (\<lambda>p. p) text_results ''a.txt'' 900 120
       = Some rag1"
    unfolding rag1_def c1_def by code_simp
  have b2: "build_rag_json plain_digest ''2024-06-30T23:59:59'' (\<lambda>p. p) other_results ''b/a.txt'' 900 120
       = Some rag2"
    unfolding rag2_def c2_def c3_def by code_simp
  have m1: "c1 \<in> set (chunks rag1)" by (simp add: rag1_def)
  have m2: "c2 \<in> set (chunks rag2)" by (simp add: rag2_def)
  have p1: "id_parts c1 = [''a.txt'', ''1'', ''0'', ''hello world'']"
    unfolding c1_def by code_simp
  have p2: "id_parts c2 = [''a.txt'', ''1'', ''0'', ''hello world'']"
    unfolding c2_def by code_simp
  note th = chunk_id_is_hash_of_parts [OF b1 m1 b2 m2]
  have k1: "chunk_id c1 = take 16 (plain_digest (py_join ''|'' (id_parts c1)))"
    using th by (rule conjunct1)
  have "id_parts c1 = id_parts c2 \<longrightarrow> chunk_id c1 = chunk_id c2"
    using th by (elim conjE)
  moreover have pe: "id_parts c1 = id_parts c2" unfolding p1 p2 by (rule refl)
  ultimately have k2: "chunk_id c1 = chunk_id c2" by (rule mp)
  have i1: "chunk_id c1 = ''a.txt|1|0|hello ''"
    by (simp add: c1_def)
  have t: "meta_tool_used (chunk_meta c1) \<noteq> meta_tool_used (chunk_meta c2)"
    by (simp add: c1_def c2_def)
  show ?thesis
    using b1 m1 b2 m2 p1 pe i1 k2 t
    by (intro exI [of _ rag1] exI [of _ c1] exI [of _ rag2] exI [of _ c2] conjI)
qed

end
